theory Spec2Isabelle
  imports Complex_Main "HOL-Library.AList"
begin

section \<open>Time values and Date objects\<close>

text \<open>
  A JavaScript time value is a number of milliseconds since the Unix epoch. A Date holds a
  time value of magnitude at most 8.64e15, or NaN (an Invalid Date). A Date is modelled as
  \<open>int option\<close>, with \<open>None\<close> for the Invalid Date. Inside the Date range every time the
  server computes is an integer below 2^53, so double arithmetic on it is exact.
\<close>

type_synonym Date = "int option"

definition maxTime :: int where
  "maxTime = 8640000000000000"

definition TimeClip :: "int \<Rightarrow> Date" where
  "TimeClip t = (if \<bar>t\<bar> \<le> maxTime then Some t else None)"

text \<open>
  The server's time zone is a parameter of every function that reads or writes local time
  fields. It gives the offset of local time from UTC (milliseconds) twice, as the language
  does: at an instant (\<open>LocalTZA(t, true)\<close>) and at a local time value
  (\<open>LocalTZA(t, false)\<close>). Where the clock is set back and a local time occurs twice, or is
  set forward and a local time is skipped, the language takes the offset before the change.
\<close>

record TimeZone =
  offsetAtUTC :: "int \<Rightarrow> int"
  offsetAtLocal :: "int \<Rightarrow> int"

definition LocalTime :: "TimeZone \<Rightarrow> int \<Rightarrow> int" where
  "LocalTime tz t = t + offsetAtUTC tz t"

definition UTC :: "TimeZone \<Rightarrow> int \<Rightarrow> int" where
  "UTC tz t = t - offsetAtLocal tz t"

text \<open>A zone whose offset never changes, such as UTC (offset 0) or Seoul (offset 32400000).\<close>

definition fixedZone :: "int \<Rightarrow> TimeZone" where
  "fixedZone off = \<lparr>offsetAtUTC = (\<lambda>t. off), offsetAtLocal = (\<lambda>t. off)\<rparr>"

text \<open>
  New York around 2023-11-05: at 06:00:00 UTC (1699164000000) the clock goes back from
  02:00 to 01:00, the offset from -4 h to -5 h. The local times from 01:00 to 02:00 of that
  day occur twice and are read with the offset before the change.
\<close>

definition newYork2023 :: TimeZone where
  "newYork2023 =
     \<lparr>offsetAtUTC = (\<lambda>t. if t < 1699164000000 then - 14400000 else - 18000000),
      offsetAtLocal = (\<lambda>t. if t < 1699164000000 - 14400000 then - 14400000 else - 18000000)\<rparr>"

definition Day :: "int \<Rightarrow> int" where
  "Day t = t div 86400000"

definition HourFromTime :: "int \<Rightarrow> int" where
  "HourFromTime t = (t div 3600000) mod 24"

definition MinFromTime :: "int \<Rightarrow> int" where
  "MinFromTime t = (t div 60000) mod 60"

definition MakeTime :: "int \<Rightarrow> int \<Rightarrow> int \<Rightarrow> int \<Rightarrow> int" where
  "MakeTime h m s ms = h * 3600000 + m * 60000 + s * 1000 + ms"

definition MakeDate :: "int \<Rightarrow> int \<Rightarrow> int" where
  "MakeDate d t = d * 86400000 + t"

text \<open>\<open>getMinutes\<close> of an Invalid Date is NaN, here \<open>None\<close>.\<close>

definition getMinutes :: "TimeZone \<Rightarrow> Date \<Rightarrow> int option" where
  "getMinutes tz d = (case d of None \<Rightarrow> None | Some t \<Rightarrow> Some (MinFromTime (LocalTime tz t)))"

text \<open>\<open>date.setMinutes(min, sec, ms)\<close>; a NaN argument or an Invalid Date gives an Invalid Date.\<close>

definition setMinutes :: "TimeZone \<Rightarrow> Date \<Rightarrow> int option \<Rightarrow> int \<Rightarrow> int \<Rightarrow> Date" where
  "setMinutes tz d m s ms =
     (case d of
        None \<Rightarrow> None
      | Some t \<Rightarrow>
          (case m of
             None \<Rightarrow> None
           | Some mi \<Rightarrow>
               (let lt = LocalTime tz t
                in TimeClip (UTC tz (MakeDate (Day lt) (MakeTime (HourFromTime lt) mi s ms))))))"

text \<open>
  The two lines both loops of the vote-history handler run on a Date:
  \<open>minutes = Math.floor(d.getMinutes() / 10) * 10; d.setMinutes(minutes, 0, 0)\<close>.
\<close>

definition roundDown10 :: "TimeZone \<Rightarrow> Date \<Rightarrow> Date" where
  "roundDown10 tz d =
     (let minutes = map_option (\<lambda>m. (m div 10) * 10) (getMinutes tz d)
      in setMinutes tz d minutes 0 0)"

datatype exn = RangeError

text \<open>
  An ISO-8601 string is represented by the instant it denotes: \<open>toISOString\<close> is injective
  on valid Dates. On an Invalid Date it throws a RangeError.
\<close>

type_synonym ISOString = int

definition toISOString :: "Date \<Rightarrow> exn + ISOString" where
  "toISOString d = (case d of None \<Rightarrow> Inl RangeError | Some t \<Rightarrow> Inr t)"

text \<open>
  \<open>iso.substring(0, 16)\<close>. For the years 0000 to 9999 the string is
  \<open>YYYY-MM-DDTHH:mm:ss.sssZ\<close> and its first 16 characters name the UTC minute; outside
  them the year has a sign and six digits and the first 16 characters name the UTC hour.
\<close>

datatype IntervalKey = MinuteKey int | HourKey int

definition substring16 :: "ISOString \<Rightarrow> IntervalKey" where
  "substring16 t =
     (if - 62167219200000 \<le> t \<and> t \<le> 253402300799999
      then MinuteKey (t div 60000) else HourKey (t div 3600000))"

section \<open>Numbers\<close>

text \<open>
  A Number is a binary64 value; a finite one is represented by the rational it denotes.
  An arithmetic operation gives the exact result rounded to the nearest value with a
  53-bit significand, a tie to the even significand: \<open>binary64\<close>. The exponent range is not
  bounded here (no overflow, no subnormal numbers): the numbers the server computes from
  fewer than 2^32 votes are far inside it. Counts and their differences are integers below
  2^53, on which the arithmetic is exact.
\<close>

definition roundHalfEven :: "rat \<Rightarrow> int" where
  "roundHalfEven x =
     (let f = \<lfloor>x\<rfloor>; r = x - of_int f
      in if r < 1 / 2 then f else if 1 / 2 < r then f + 1 else if even f then f else f + 1)"

text \<open>
  A positive number is scaled by a power of 2 into the range from 2^52 to 2^53, where the
  representable values are the integers, rounded there and scaled back.
\<close>

function binary64Pos :: "rat \<Rightarrow> rat" where
  "binary64Pos x =
     (if 9007199254740992 \<le> x then 2 * binary64Pos (x / 2)
      else if 0 < x \<and> x < 4503599627370496 then binary64Pos (2 * x) / 2
      else of_int (roundHalfEven x))"
  by pat_completeness auto

definition binade :: "rat \<Rightarrow> nat" where
  "binade x =
     (if 9007199254740992 \<le> x then nat \<lfloor>x\<rfloor>
      else if 0 < x \<and> x < 4503599627370496 then nat \<lfloor>9007199254740992 / x\<rfloor>
      else 0)"

termination binary64Pos
proof -
  have half: "\<lfloor>y / 2\<rfloor> < \<lfloor>y\<rfloor>" if "2 \<le> y" for y :: rat
  proof -
    have "of_int \<lfloor>y / 2\<rfloor> \<le> y / 2" by (rule of_int_floor_le)
    moreover have "y / 2 \<le> y - 1" using that by simp
    moreover have "y - 1 < of_int \<lfloor>y\<rfloor>" by linarith
    ultimately have "(of_int \<lfloor>y / 2\<rfloor> :: rat) < of_int \<lfloor>y\<rfloor>" by linarith
    then show ?thesis by simp
  qed
  have down: "binade (x / 2) < binade x" if x: "9007199254740992 \<le> x" for x
  proof -
    have p: "0 < \<lfloor>x\<rfloor>" using x by (simp add: floor_less_iff)
    show ?thesis
    proof (cases "9007199254740992 \<le> x / 2")
      case True
      have "\<lfloor>x / 2\<rfloor> < \<lfloor>x\<rfloor>" using x by (intro half) simp
      then show ?thesis using True x p by (simp add: binade_def)
    next
      case False
      then have "\<not> (x / 2 < 4503599627370496)" using x by simp
      then show ?thesis using False x p by (simp add: binade_def)
    qed
  qed
  have up: "binade (2 * x) < binade x" if x: "0 < x" "x < 4503599627370496" for x
  proof -
    let ?y = "9007199254740992 / x"
    have y: "2 \<le> ?y" using x by (simp add: pos_le_divide_eq)
    then have p: "0 < \<lfloor>?y\<rfloor>" by (simp add: floor_less_iff)
    show ?thesis
    proof (cases "2 * x < 4503599627370496")
      case True
      have "\<lfloor>?y / 2\<rfloor> < \<lfloor>?y\<rfloor>" using y by (rule half)
      moreover have "9007199254740992 / (2 * x) = ?y / 2" by simp
      ultimately show ?thesis using True x p by (simp add: binade_def)
    next
      case False
      then show ?thesis using x p by (simp add: binade_def)
    qed
  qed
  show ?thesis
    by (relation "measure binade") (auto simp: down up)
qed

definition binary64 :: "rat \<Rightarrow> rat" where
  "binary64 x = (if 0 < x then binary64Pos x else if x < 0 then - binary64Pos (- x) else 0)"

section \<open>The schema\<close>

record Zone =
  z_id :: string
  z_name :: string
  z_temperature :: rat
  z_hotVotes :: nat
  z_coldVotes :: nat
  z_activeVoters :: nat
  z_lastUpdated :: int

record Vote =
  v_id :: string
  v_zoneId :: string
  v_voteType :: string
  v_timestamp :: int

record TemperatureHistory =
  h_id :: string
  h_zoneId :: string
  h_temperature :: rat
  h_timestamp :: int

record ActiveConnection =
  c_id :: string
  c_sessionId :: string
  c_lastSeen :: int

record VoteRequest =
  zoneId :: string
  voteType :: string

text \<open>A request body, as the JSON parser hands it over (\<open>JUndefined\<close>: no body).\<close>

datatype json =
    JUndefined
  | JNull
  | JBool bool
  | JNum rat
  | JStr string
  | JArr "json list"
  | JObj "(string \<times> json) list"

datatype ZodError = ZodError

text \<open>\<open>z.string()\<close> and \<open>z.enum(['hot', 'cold'])\<close> on the value of a key (\<open>None\<close>: key absent).\<close>

definition z_string :: "json option \<Rightarrow> ZodError + string" where
  "z_string j = (case j of Some (JStr s) \<Rightarrow> Inr s | _ \<Rightarrow> Inl ZodError)"

definition z_enum :: "string list \<Rightarrow> json option \<Rightarrow> ZodError + string" where
  "z_enum vs j = (case j of Some (JStr s) \<Rightarrow> (if s \<in> set vs then Inr s else Inl ZodError)
                          | _ \<Rightarrow> Inl ZodError)"

definition voteRequestSchema_parse :: "json \<Rightarrow> ZodError + VoteRequest" where
  "voteRequestSchema_parse body =
     (case body of
        JObj props \<Rightarrow>
          (case z_string (map_of props ''zoneId'') of
             Inl e \<Rightarrow> Inl e
           | Inr zid \<Rightarrow>
               (case z_enum [''hot'', ''cold''] (map_of props ''voteType'') of
                  Inl e \<Rightarrow> Inl e
                | Inr vt \<Rightarrow> Inr \<lparr>zoneId = zid, voteType = vt\<rparr>))
      | _ \<Rightarrow> Inl ZodError)"

section \<open>MemStorage\<close>

text \<open>
  A JavaScript \<open>Map\<close> keeps its keys in insertion order: \<open>set\<close> on a present key replaces
  the value in place, on a new key it appends (\<open>AList.update\<close>); \<open>delete\<close> removes the key
  (\<open>AList.delete\<close>); \<open>get\<close> is \<open>map_of\<close>; \<open>values()\<close> is \<open>map snd\<close>.
  The clock reading \<open>now\<close> and the strings \<open>randomUUID()\<close> returns are arguments.
\<close>

record MemStorage =
  zones :: "(string \<times> Zone) list"
  votes :: "(string \<times> Vote) list"
  temperatureHistory :: "(string \<times> TemperatureHistory) list"
  activeConnections :: "(string \<times> ActiveConnection) list"

definition defaultZones :: "(string \<times> string \<times> rat) list" where
  "defaultZones =
     [(''standing'', ''1F Standing Area'', binary64 (223 / 10)),
      (''zone-a'', ''1F Zone A'', binary64 (218 / 10)),
      (''zone-b'', ''1F Zone B'', binary64 (227 / 10)),
      (''zone-c'', ''2F Zone C'', binary64 (215 / 10)),
      (''recharge'', ''2F Recharge Zone'', binary64 (231 / 10))]"

definition initializeDefaultZones :: "int \<Rightarrow> (string \<times> Zone) list" where
  "initializeDefaultZones now =
     fold (\<lambda>(i, n, t) zs.
             AList.update i \<lparr>z_id = i, z_name = n, z_temperature = t, z_hotVotes = 0,
                            z_coldVotes = 0, z_activeVoters = 0, z_lastUpdated = now\<rparr> zs)
          defaultZones []"

definition newMemStorage :: "int \<Rightarrow> MemStorage" where
  "newMemStorage now =
     \<lparr>zones = initializeDefaultZones now, votes = [], temperatureHistory = [],
      activeConnections = []\<rparr>"

definition getAllZones :: "MemStorage \<Rightarrow> Zone list" where
  "getAllZones s = map snd (zones s)"

definition getZone :: "MemStorage \<Rightarrow> string \<Rightarrow> Zone option" where
  "getZone s i = map_of (zones s) i"

definition updateZoneTemperature ::
  "int \<Rightarrow> string \<Rightarrow> rat \<Rightarrow> MemStorage \<Rightarrow> Zone option \<times> MemStorage" where
  "updateZoneTemperature now i temperature s =
     (case map_of (zones s) i of
        None \<Rightarrow> (None, s)
      | Some zone \<Rightarrow>
          (let updatedZone = zone\<lparr>z_temperature := temperature, z_lastUpdated := now\<rparr>
           in (Some updatedZone, s\<lparr>zones := AList.update i updatedZone (zones s)\<rparr>)))"

definition updateZoneVotes ::
  "int \<Rightarrow> string \<Rightarrow> nat \<Rightarrow> nat \<Rightarrow> MemStorage \<Rightarrow> Zone option \<times> MemStorage" where
  "updateZoneVotes now i hotVotes coldVotes s =
     (case map_of (zones s) i of
        None \<Rightarrow> (None, s)
      | Some zone \<Rightarrow>
          (let updatedZone = zone\<lparr>z_hotVotes := hotVotes, z_coldVotes := coldVotes,
                                  z_lastUpdated := now\<rparr>
           in (Some updatedZone, s\<lparr>zones := AList.update i updatedZone (zones s)\<rparr>)))"

definition createVote :: "int \<Rightarrow> string \<Rightarrow> VoteRequest \<Rightarrow> MemStorage \<Rightarrow> Vote \<times> MemStorage" where
  "createVote now uuid insertVote s =
     (let vote = \<lparr>v_id = uuid, v_zoneId = zoneId insertVote, v_voteType = voteType insertVote,
                  v_timestamp = now\<rparr>
      in (vote, s\<lparr>votes := AList.update uuid vote (votes s)\<rparr>))"

text \<open>\<open>vote.timestamp >= cutoff\<close> is false for every vote when the cutoff is an Invalid Date.\<close>

definition getRecentVotesByZone :: "int \<Rightarrow> MemStorage \<Rightarrow> string \<Rightarrow> int \<Rightarrow> Vote list" where
  "getRecentVotesByZone now s zid minutes =
     (case TimeClip (now - minutes * 60 * 1000) of
        None \<Rightarrow> []
      | Some cutoff \<Rightarrow>
          filter (\<lambda>vote. v_zoneId vote = zid \<and> v_timestamp vote \<ge> cutoff) (map snd (votes s)))"

definition addTemperatureHistory ::
  "int \<Rightarrow> string \<Rightarrow> string \<Rightarrow> rat \<Rightarrow> MemStorage \<Rightarrow> TemperatureHistory \<times> MemStorage" where
  "addTemperatureHistory now uuid zid temperature s =
     (let history = \<lparr>h_id = uuid, h_zoneId = zid, h_temperature = temperature,
                     h_timestamp = now\<rparr>
      in (history, s\<lparr>temperatureHistory := AList.update uuid history (temperatureHistory s)\<rparr>))"

definition updateConnection ::
  "int \<Rightarrow> string \<Rightarrow> string \<Rightarrow> MemStorage \<Rightarrow> ActiveConnection \<times> MemStorage" where
  "updateConnection now uuid sid s =
     (case find (\<lambda>conn. c_sessionId conn = sid) (map snd (activeConnections s)) of
        Some existing \<Rightarrow>
          (let updated = existing\<lparr>c_lastSeen := now\<rparr>
           in (updated,
               s\<lparr>activeConnections := AList.update (c_id existing) updated (activeConnections s)\<rparr>))
      | None \<Rightarrow>
          (let connection = \<lparr>c_id = uuid, c_sessionId = sid, c_lastSeen = now\<rparr>
           in (connection,
               s\<lparr>activeConnections := AList.update uuid connection (activeConnections s)\<rparr>)))"

definition getActiveConnections :: "MemStorage \<Rightarrow> ActiveConnection list" where
  "getActiveConnections s = map snd (activeConnections s)"

text \<open>\<open>connection.lastSeen < cutoff\<close> is false for every record when the cutoff is invalid.\<close>

definition cleanupOldConnections :: "int \<Rightarrow> int \<Rightarrow> MemStorage \<Rightarrow> MemStorage" where
  "cleanupOldConnections now minutes s =
     (let cutoff = TimeClip (now - minutes * 60 * 1000);
          toRemove = map fst (filter (\<lambda>(i, connection).
                                 (case cutoff of None \<Rightarrow> False
                                  | Some c \<Rightarrow> c_lastSeen connection < c))
                               (activeConnections s))
      in s\<lparr>activeConnections := fold AList.delete toRemove (activeConnections s)\<rparr>)"

text \<open>
  The timer of \<open>startTemperatureHistoryCapture\<close>: one sample per zone; \<open>uuid n\<close> is the id
  drawn for the \<open>n\<close>-th zone.
\<close>

definition captureTemperatureHistory :: "int \<Rightarrow> (nat \<Rightarrow> string) \<Rightarrow> MemStorage \<Rightarrow> MemStorage" where
  "captureTemperatureHistory now uuid s =
     fold (\<lambda>(n, zone) st.
             snd (addTemperatureHistory now (uuid n) (z_id zone) (z_temperature zone) st))
          (enumerate 0 (map snd (zones s))) s"

definition getRecentVoteCounts :: "int \<Rightarrow> MemStorage \<Rightarrow> string \<Rightarrow> int \<Rightarrow> nat \<times> nat" where
  "getRecentVoteCounts now s zid minutes =
     (let recentVotes = getRecentVotesByZone now s zid minutes;
          hotVotes = length (filter (\<lambda>vote. v_voteType vote = ''hot'') recentVotes);
          coldVotes = length (filter (\<lambda>vote. v_voteType vote = ''cold'') recentVotes)
      in (hotVotes, coldVotes))"

section \<open>The routes\<close>

text \<open>
  A handler answers with a payload (status 200) or with an error; the \<open>catch\<close> block of
  each handler turns a \<open>ZodError\<close> into 400 and every other exception into 500. A request
  is handled at one clock reading \<open>now\<close>, and requests are handled one after the other.
  The memory of the process is not bounded. The routes \<open>GET /api/zones/:id\<close> and \<open>GET /api/stats\<close> only read
  the store and are left out.
\<close>

datatype error = ValidationError | NotFoundError | InternalError

fun status :: "error \<Rightarrow> nat" where
  "status ValidationError = 400"
| "status NotFoundError = 404"
| "status InternalError = 500"

text \<open>\<open>req.headers['x-session-id'] as string || randomUUID()\<close>: the empty string is falsy.\<close>

definition sessionIdOf :: "string option \<Rightarrow> string \<Rightarrow> string" where
  "sessionIdOf header uuid = (case header of None \<Rightarrow> uuid | Some h \<Rightarrow> if h = [] then uuid else h)"

subsection \<open>GET /api/zones\<close>

definition getZonesHandler ::
  "int \<Rightarrow> string \<Rightarrow> string \<Rightarrow> string option \<Rightarrow> MemStorage \<Rightarrow> (error + Zone list) \<times> MemStorage" where
  "getZonesHandler now uuidSession uuidConn header s =
     (let sessionId = sessionIdOf header uuidSession;
          s1 = snd (updateConnection now uuidConn sessionId s);
          zs = getAllZones s1;
          updatedZones = map (\<lambda>zone.
                           (let recentVotes = getRecentVoteCounts now s1 (z_id zone) 10
                            in zone\<lparr>z_hotVotes := fst recentVotes, z_coldVotes := snd recentVotes\<rparr>))
                         zs
      in (Inr updatedZones, s1))"

subsection \<open>POST /api/vote\<close>

text \<open>
  \<open>Math.round\<close> gives the integer nearest to its argument, a tie towards plus infinity; it
  is exact. The products, the sum and the quotient of the formula are binary64 operations,
  and \<open>0.1\<close> is the binary64 number nearest to one tenth.
\<close>

definition Math_round :: "rat \<Rightarrow> int" where
  "Math_round x = \<lfloor>x + 1 / 2\<rfloor>"

definition newTemperatureOf :: "nat \<Rightarrow> nat \<Rightarrow> rat" where
  "newTemperatureOf hot cold =
     (let voteDifference = of_int (int hot - int cold);
          baseTemperature = 22;
          temperatureAdjustment = binary64 (voteDifference * binary64 (1 / 10))
      in binary64
           (of_int (Math_round (binary64 (binary64 (baseTemperature + temperatureAdjustment) * 10)))
              / 10))"

text \<open>The response \<open>{...updatedZone, hotVotes, coldVotes}\<close>, \<open>updatedZone\<close> possibly undefined.\<close>

datatype VoteResponse = ZoneJson Zone | CountsJson nat nat

definition postVoteHandler ::
  "int \<Rightarrow> string \<Rightarrow> string \<Rightarrow> string \<Rightarrow> string \<Rightarrow> string option \<Rightarrow> json \<Rightarrow> MemStorage
     \<Rightarrow> (error + VoteResponse) \<times> MemStorage" where
  "postVoteHandler now uuidSession uuidConn uuidVote uuidHist header body s =
     (case voteRequestSchema_parse body of
        Inl e \<Rightarrow> (Inl ValidationError, s)
      | Inr validatedData \<Rightarrow>
          (case getZone s (zoneId validatedData) of
             None \<Rightarrow> (Inl NotFoundError, s)
           | Some zone \<Rightarrow>
               (let sessionId = sessionIdOf header uuidSession;
                    s1 = snd (updateConnection now uuidConn sessionId s);
                    s2 = snd (createVote now uuidVote validatedData s1);
                    recentVotes = getRecentVoteCounts now s2 (zoneId validatedData) 10;
                    newTemperature = newTemperatureOf (fst recentVotes) (snd recentVotes);
                    s3 = snd (updateZoneTemperature now (zoneId validatedData) newTemperature s2);
                    s4 = snd (addTemperatureHistory now uuidHist (zoneId validatedData)
                                newTemperature s3)
                in (Inr (case getZone s4 (zoneId validatedData) of
                           None \<Rightarrow> CountsJson (fst recentVotes) (snd recentVotes)
                         | Some updatedZone \<Rightarrow>
                             ZoneJson (updatedZone\<lparr>z_hotVotes := fst recentVotes,
                                                   z_coldVotes := snd recentVotes\<rparr>)),
                    s4))))"

subsection \<open>GET /api/zones/:id/vote-history\<close>

record VoteHistoryEntry =
  e_timestamp :: ISOString
  e_hotVotes :: nat
  e_coldVotes :: nat

type_synonym IntervalData = "IntervalKey \<Rightarrow> (nat \<times> nat) option"

text \<open>The body of \<open>allVotes.forEach\<close>: one vote goes into the bucket of its interval key.\<close>

definition addVote :: "TimeZone \<Rightarrow> Vote \<Rightarrow> IntervalData \<Rightarrow> exn + IntervalData" where
  "addVote tz vote intervalData =
     (let voteDate = roundDown10 tz (TimeClip (v_timestamp vote))
      in case toISOString voteDate of
           Inl e \<Rightarrow> Inl e
         | Inr isoString \<Rightarrow>
             (let intervalKey = substring16 isoString;
                  d = (case intervalData intervalKey of None \<Rightarrow> (0, 0) | Some d \<Rightarrow> d)
              in Inr (intervalData(intervalKey \<mapsto>
                        (if v_voteType vote = ''hot'' then (fst d + 1, snd d)
                         else (fst d, snd d + 1))))))"

fun forEachVote :: "TimeZone \<Rightarrow> Vote list \<Rightarrow> IntervalData \<Rightarrow> exn + IntervalData" where
  "forEachVote tz [] intervalData = Inr intervalData"
| "forEachVote tz (vote # rest) intervalData =
     (case addVote tz vote intervalData of
        Inl e \<Rightarrow> Inl e
      | Inr intervalData' \<Rightarrow> forEachVote tz rest intervalData')"

text \<open>The body of the loop over \<open>i\<close>: the entry of the interval \<open>i\<close> steps before now.\<close>

definition intervalEntry :: "TimeZone \<Rightarrow> int \<Rightarrow> IntervalData \<Rightarrow> int \<Rightarrow> exn + VoteHistoryEntry" where
  "intervalEntry tz now intervalData i =
     (let intervalDate = roundDown10 tz (TimeClip (now - i * 10 * 60 * 1000))
      in case toISOString intervalDate of
           Inl e \<Rightarrow> Inl e
         | Inr isoString \<Rightarrow>
             (let d = (case intervalData (substring16 isoString) of None \<Rightarrow> (0, 0) | Some d \<Rightarrow> d)
              in Inr \<lparr>e_timestamp = isoString, e_hotVotes = fst d, e_coldVotes = snd d\<rparr>))"

text \<open>
  \<open>result.push(entry)\<close>: an array holds at most 2^32 - 1 elements, and \<open>push\<close> on an array
  of that length throws a RangeError.
\<close>

definition push :: "'a list \<Rightarrow> 'a \<Rightarrow> exn + 'a list" where
  "push xs x = (if length xs < 4294967295 then Inr (xs @ [x]) else Inl RangeError)"

text \<open>\<open>for (let i = totalIntervals - 1; i >= 0; i--) { ...; result.push(entry) }\<close>\<close>

function seriesLoop ::
  "TimeZone \<Rightarrow> int \<Rightarrow> IntervalData \<Rightarrow> int \<Rightarrow> VoteHistoryEntry list
     \<Rightarrow> exn + VoteHistoryEntry list" where
  "seriesLoop tz now intervalData i result =
     (if i \<ge> 0
      then (case intervalEntry tz now intervalData i of
              Inl e \<Rightarrow> Inl e
            | Inr entry \<Rightarrow>
                (case push result entry of
                   Inl e \<Rightarrow> Inl e
                 | Inr result' \<Rightarrow> seriesLoop tz now intervalData (i - 1) result'))
      else Inr result)"
  by pat_completeness auto
termination
  by (relation "measure (\<lambda>(tz, now, intervalData, i, result). nat (i + 1))") auto

text \<open>
  \<open>hoursParam\<close> is what \<open>parseInt(req.query.hours)\<close> returned: \<open>None\<close> for NaN (a missing or
  non-numeric parameter), else an integer (an infinite result behaves as any integer
  beyond the Date range does). \<open>parseInt(...) || 6\<close> replaces NaN and 0 by 6.
\<close>

definition hoursOf :: "int option \<Rightarrow> int" where
  "hoursOf hoursParam = (case hoursParam of None \<Rightarrow> 6 | Some h \<Rightarrow> if h = 0 then 6 else h)"

definition voteHistoryHandler ::
  "TimeZone \<Rightarrow> int \<Rightarrow> MemStorage \<Rightarrow> string \<Rightarrow> int option \<Rightarrow> error + VoteHistoryEntry list" where
  "voteHistoryHandler tz now s zid hoursParam =
     (let hours = hoursOf hoursParam;
          allVotes = getRecentVotesByZone now s zid (hours * 60)
      in case forEachVote tz allVotes Map.empty of
           Inl e \<Rightarrow> Inl InternalError
         | Inr intervalData \<Rightarrow>
             (let totalIntervals = hours * 6
              in case seriesLoop tz now intervalData (totalIntervals - 1) [] of
                   Inl e \<Rightarrow> Inl InternalError
                 | Inr result \<Rightarrow> Inr result))"

section \<open>Notions the properties are stated with\<close>

text \<open>
  The start of the local 10-minute interval that contains the instant \<open>t\<close>, in a zone of
  constant offset \<open>off\<close>.
\<close>

definition bucketStart :: "int \<Rightarrow> int \<Rightarrow> int" where
  "bucketStart off t = ((t + off) div 600000) * 600000 - off"

text \<open>
  Rounding a Date down to its 10-minute mark in this zone does not leave the Date range.
  Every zone of constant offset is such a zone, and so is \<open>newYork2023\<close>.
\<close>

definition zoneKeepsRange :: "TimeZone \<Rightarrow> bool" where
  "zoneKeepsRange tz \<longleftrightarrow>
     (\<forall>t. - maxTime + 600000 \<le> t \<and> t \<le> maxTime \<longrightarrow> roundDown10 tz (Some t) \<noteq> None)"

text \<open>
  A clock reading: not before the Unix epoch and inside the Date range. Every timestamp the
  server stores is a clock reading (\<open>new Date()\<close>).
\<close>

definition validClock :: "int \<Rightarrow> bool" where
  "validClock t \<longleftrightarrow> 0 \<le> t \<and> t \<le> maxTime"

definition votesStamped :: "MemStorage \<Rightarrow> bool" where
  "votesStamped s \<longleftrightarrow> list_all (\<lambda>vote. validClock (v_timestamp vote)) (map snd (votes s))"

definition connectionsStamped :: "MemStorage \<Rightarrow> bool" where
  "connectionsStamped s \<longleftrightarrow>
     list_all (\<lambda>conn. validClock (c_lastSeen conn)) (map snd (activeConnections s))"

text \<open>Every vote references a stored zone.\<close>

definition votesReferenceZones :: "MemStorage \<Rightarrow> bool" where
  "votesReferenceZones s \<longleftrightarrow>
     list_all (\<lambda>vote. getZone s (v_zoneId vote) \<noteq> None) (map snd (votes s))"

text \<open>The counts a bucket map holds for the interval that starts at \<open>t\<close>, and the entry made of them.\<close>

definition countsAt :: "IntervalData \<Rightarrow> int \<Rightarrow> nat \<times> nat" where
  "countsAt m t = (case m (substring16 t) of None \<Rightarrow> (0, 0) | Some d \<Rightarrow> d)"

definition entryAt :: "int \<Rightarrow> int \<Rightarrow> IntervalData \<Rightarrow> int \<Rightarrow> VoteHistoryEntry" where
  "entryAt off now m j =
     (let t = bucketStart off now - j * 600000
      in \<lparr>e_timestamp = t, e_hotVotes = fst (countsAt m t), e_coldVotes = snd (countsAt m t)\<rparr>)"

text \<open>
  A store to run the handlers on: the server started at 1699999000000 and one hot vote for
  \<open>zone-a\<close> came in at 1700000000000.
\<close>

definition demoVote :: json where
  "demoVote = JObj [(''zoneId'', JStr ''zone-a''), (''voteType'', JStr ''hot'')]"

definition demoStorage :: MemStorage where
  "demoStorage =
     snd (postVoteHandler 1700000000000 ''session-1'' ''conn-1'' ''vote-1'' ''hist-1'' None demoVote
            (newMemStorage 1699999000000))"

text \<open>
  The connection store changes through two operations only: \<open>updateConnection\<close> (called
  by the handlers) and \<open>cleanupOldConnections\<close> (called by the timer).
\<close>

datatype ConnectionOp = Touch int string string | Sweep int int

fun applyConnectionOp :: "ConnectionOp \<Rightarrow> MemStorage \<Rightarrow> MemStorage" where
  "applyConnectionOp (Touch now uuid sid) s = snd (updateConnection now uuid sid s)"
| "applyConnectionOp (Sweep now minutes) s = cleanupOldConnections now minutes s"

text \<open>
  The keys of the connection Map are distinct, every record is stored under its own id, and
  no two records have the same session id.
\<close>

definition connectionsWellFormed :: "(string \<times> ActiveConnection) list \<Rightarrow> bool" where
  "connectionsWellFormed cs \<longleftrightarrow>
     distinct (map fst cs) \<and> list_all (\<lambda>(k, conn). c_id conn = k) cs
       \<and> distinct (map (c_sessionId \<circ> snd) cs)"

text \<open>
  The states of the store: it is created, and then changed by the two handlers that write,
  by the cleanup timer (\<open>cleanupOldConnections(5)\<close>) and by the history timer, each at a
  valid clock reading.
\<close>

inductive reachable :: "MemStorage \<Rightarrow> bool" where
  started: "validClock now \<Longrightarrow> reachable (newMemStorage now)"
| zonesRead: "reachable s \<Longrightarrow> validClock now \<Longrightarrow>
    reachable (snd (getZonesHandler now uS uC header s))"
| voted: "reachable s \<Longrightarrow> validClock now \<Longrightarrow>
    reachable (snd (postVoteHandler now uS uC uV uH header body s))"
| swept: "reachable s \<Longrightarrow> validClock now \<Longrightarrow> reachable (cleanupOldConnections now 5 s)"
| captured: "reachable s \<Longrightarrow> validClock now \<Longrightarrow>
    reachable (captureTemperatureHistory now uuid s)"

section \<open>Rounding a Date down to its 10-minute mark\<close>

text \<open>
  \<open>getMinutes\<close>, \<open>Math.floor(m / 10) * 10\<close> and \<open>setMinutes(m, 0, 0)\<close> together floor the
  local time to a multiple of 10 minutes and keep the hour and the day; the result is read
  back as a UTC instant with the zone's offset at that local time.
\<close>

lemma min_split: "(m::int) div 60 * 6 + (m mod 60) div 10 = m div 10"
proof -
  define q where "q = m div 10"
  have a: "m div 60 = q div 6"
    using zdiv_zmult2_eq [of 6 m 10] by (simp add: q_def)
  have "m mod 60 = 10 * (q mod 6) + m mod 10"
    using zmod_zmult2_eq [of 6 m 10] by (simp add: q_def)
  then have b: "(m mod 60) div 10 = q mod 6"
    by simp
  show ?thesis
    unfolding a b q_def [symmetric] by simp
qed

lemma lin24: "((a::int) * 24 + b) * 3600000 = a * 86400000 + b * 3600000"
  by (simp add: algebra_simps)

lemma day_split: "(H::int) div 24 * 86400000 + H mod 24 * 3600000 = H * 3600000"
  using lin24 [of "H div 24" "H mod 24"] by (simp only: div_mult_mod_eq)

lemma lin6: "(H::int) * 3600000 + x * 10 * 60000 = (H * 6 + x) * 600000"
  by (simp add: algebra_simps)

lemma floor10_arith:
  "MakeDate (Day lt) (MakeTime (HourFromTime lt) ((MinFromTime lt div 10) * 10) 0 0)
     = (lt div 600000) * 600000"
proof -
  define m where "m = lt div 60000"
  define H where "H = m div 60"
  have h: "lt div 3600000 = H"
    using zdiv_zmult2_eq [of 60 lt 60000] by (simp add: H_def m_def)
  have d: "lt div 86400000 = H div 24"
    using zdiv_zmult2_eq [of 24 lt 3600000] by (simp add: h)
  have t: "lt div 600000 = m div 10"
    using zdiv_zmult2_eq [of 10 lt 60000] by (simp add: m_def)
  have "H div 24 * 86400000 + (H mod 24 * 3600000 + (m mod 60) div 10 * 10 * 60000 + 0 * 1000 + 0)
        = H * 3600000 + (m mod 60) div 10 * 10 * 60000"
    using day_split [of H] by simp
  also have "\<dots> = (H * 6 + (m mod 60) div 10) * 600000"
    by (rule lin6)
  also have "\<dots> = m div 10 * 600000"
    unfolding H_def min_split ..
  finally show ?thesis
    unfolding MakeDate_def Day_def MakeTime_def HourFromTime_def MinFromTime_def d h t
    unfolding m_def [symmetric] .
qed

lemma TimeClip_Some: "- maxTime \<le> t \<Longrightarrow> t \<le> maxTime \<Longrightarrow> TimeClip t = Some t"
  by (simp add: TimeClip_def)

lemma roundDown10_zone:
  "roundDown10 tz (Some t) = TimeClip (UTC tz ((LocalTime tz t div 600000) * 600000))"
  by (simp add: roundDown10_def getMinutes_def setMinutes_def Let_def floor10_arith)

lemma roundDown10_Some: "roundDown10 (fixedZone off) (Some t) = TimeClip (bucketStart off t)"
  by (simp add: roundDown10_zone LocalTime_def UTC_def bucketStart_def fixedZone_def)

lemma roundDown10_None: "roundDown10 tz None = None"
  by (simp add: roundDown10_def getMinutes_def setMinutes_def)

lemma bucketStart_le: "bucketStart tz t \<le> t"
proof -
  have "0 \<le> (t + tz) mod 600000" by simp
  moreover have "(t + tz) div 600000 * 600000 + (t + tz) mod 600000 = t + tz" by simp
  ultimately show ?thesis unfolding bucketStart_def by linarith
qed

lemma bucketStart_gt: "t < bucketStart tz t + 600000"
proof -
  have "(t + tz) mod 600000 < 600000" by simp
  moreover have "(t + tz) div 600000 * 600000 + (t + tz) mod 600000 = t + tz" by simp
  ultimately show ?thesis unfolding bucketStart_def by linarith
qed


lemma bucketStart_shift: "bucketStart tz (t - i * 600000) = bucketStart tz t - i * 600000"
proof -
  have "(t - i * 600000 + tz) div 600000 = (t + tz) div 600000 - i"
    using div_mult_self1 [of 600000 "t + tz" "- i"] by (simp add: algebra_simps)
  then show ?thesis by (simp add: bucketStart_def algebra_simps)
qed

text \<open>Zones in which rounding stays inside the Date range.\<close>

lemma fixedZone_keepsRange: "zoneKeepsRange (fixedZone off)"
proof -
  have "roundDown10 (fixedZone off) (Some t) \<noteq> None"
    if "- maxTime + 600000 \<le> t" "t \<le> maxTime" for t
    using that bucketStart_le [of off t] bucketStart_gt [of t off]
    by (simp add: roundDown10_Some TimeClip_def abs_le_iff)
  then show ?thesis
    by (simp add: zoneKeepsRange_def)
qed

lemma floor10_bounds: "(x::int) - 600000 < x div 600000 * 600000 \<and> x div 600000 * 600000 \<le> x"
proof -
  have "0 \<le> x mod 600000" "x mod 600000 < 600000" by simp_all
  moreover have "x div 600000 * 600000 + x mod 600000 = x" by simp
  ultimately show ?thesis by linarith
qed

lemma newYork2023_keepsRange: "zoneKeepsRange newYork2023"
proof -
  have "roundDown10 newYork2023 (Some t) \<noteq> None"
    if lo: "- maxTime + 600000 \<le> t" and hi: "t \<le> maxTime" for t
  proof -
    define L where "L = LocalTime newYork2023 t div 600000 * 600000"
    have b: "LocalTime newYork2023 t - 600000 < L" "L \<le> LocalTime newYork2023 t"
      using floor10_bounds [of "LocalTime newYork2023 t"] by (simp_all add: L_def)
    have "- maxTime \<le> UTC newYork2023 L \<and> UTC newYork2023 L \<le> maxTime"
      using b lo hi
      by (auto simp: LocalTime_def UTC_def newYork2023_def maxTime_def split: if_splits)
    then show ?thesis
      by (simp add: roundDown10_zone L_def [symmetric] TimeClip_def abs_le_iff)
  qed
  then show ?thesis
    by (simp add: zoneKeepsRange_def)
qed

section \<open>Maps in insertion order\<close>

lemma set_update_subset: "set (AList.update k v cs) \<subseteq> insert (k, v) (set cs)"
  by (induction cs) auto

lemma list_all_update:
  "list_all P (map snd cs) \<Longrightarrow> P v \<Longrightarrow> list_all P (map snd (AList.update k v cs))"
  using set_update_subset [of k v cs] by (auto simp: list_all_iff)

lemma find_unique:
  "distinct (map f xs) \<Longrightarrow> x \<in> set xs \<Longrightarrow> find (\<lambda>y. f y = f x) xs = Some x"
  by (induction xs) (auto simp: rev_image_eqI)

lemma update_in_place:
  "distinct (map fst cs) \<Longrightarrow> (k, v) \<in> set cs \<Longrightarrow>
     AList.update k v' cs = map (\<lambda>p. if fst p = k then (k, v') else p) cs"
proof (induction cs)
  case Nil
  then show ?case by simp
next
  case (Cons p cs)
  show ?case
  proof (cases "fst p = k")
    case True
    then have "k \<notin> fst ` set cs"
      using Cons.prems(1) by auto
    then have "map (\<lambda>p. if fst p = k then (k, v') else p) cs = cs"
      by (intro map_idI) force
    then show ?thesis using True by simp
  next
    case False
    then have "(k, v) \<in> set cs"
      using Cons.prems(2) by auto
    then show ?thesis
      using False Cons.IH Cons.prems(1) by simp
  qed
qed

lemma update_fresh_value:
  "distinct (map (g \<circ> snd) cs) \<Longrightarrow> g v \<notin> set (map (g \<circ> snd) cs) \<Longrightarrow>
     distinct (map (g \<circ> snd) (AList.update k v cs))
       \<and> set (map (g \<circ> snd) (AList.update k v cs)) \<subseteq> insert (g v) (set (map (g \<circ> snd) cs))"
  by (induction cs) auto

lemma fold_delete_filter:
  "fold AList.delete ks cs = filter (\<lambda>p. fst p \<notin> set ks) cs"
proof (induction ks arbitrary: cs)
  case Nil
  then show ?case by simp
next
  case (Cons k ks)
  have "fold AList.delete (k # ks) cs = filter (\<lambda>p. fst p \<notin> set ks) (AList.delete k cs)"
    by (simp add: Cons.IH)
  also have "\<dots> = filter (\<lambda>p. fst p \<notin> set (k # ks)) cs"
    by (auto simp: AList.delete_eq case_prod_beta intro!: filter_cong)
  finally show ?case .
qed

section \<open>The temperature model and the vote schema\<close>

text \<open>A binary64 operation has a relative error of at most 2^-53.\<close>

declare binary64Pos.simps [simp del]

lemma roundHalfEven_err: "\<bar>of_int (roundHalfEven x) - x\<bar> \<le> 1 / 2"
proof -
  have "of_int \<lfloor>x\<rfloor> \<le> x" "x < of_int \<lfloor>x\<rfloor> + 1"
    by linarith+
  then show ?thesis
    by (auto simp: roundHalfEven_def Let_def)
qed

lemma roundHalfEven_near: "\<bar>x - of_int n\<bar> < 1 / 2 \<Longrightarrow> roundHalfEven x = n"
proof -
  assume a: "\<bar>x - of_int n\<bar> < 1 / 2"
  consider "of_int n \<le> x" | "x < of_int n" by linarith
  then show ?thesis
  proof cases
    case 1
    then have "\<lfloor>x\<rfloor> = n"
      using a by (intro floor_unique) linarith+
    then show ?thesis
      using a 1 by (simp add: roundHalfEven_def Let_def)
  next
    case 2
    have e: "(of_int (n - 1) :: rat) = of_int n - 1"
      by simp
    have f: "\<lfloor>x\<rfloor> = n - 1"
      using a 2 by (intro floor_unique) (unfold e, linarith+)
    have "1 / 2 < x - of_int (n - 1)"
      unfolding e using a 2 by linarith
    then show ?thesis
      using f by (simp add: roundHalfEven_def Let_def)
  qed
qed

lemma binary64Pos_err: "0 < x \<Longrightarrow> \<bar>binary64Pos x - x\<bar> \<le> x / 9007199254740992"
proof (induction x rule: binary64Pos.induct)
  case (1 x)
  show ?case
  proof (cases "9007199254740992 \<le> x")
    case True
    then have "\<bar>binary64Pos (x / 2) - x / 2\<bar> \<le> x / 2 / 9007199254740992"
      using "1.IH"(1) "1.prems" by simp
    moreover have "binary64Pos x = 2 * binary64Pos (x / 2)"
      using True by (simp add: binary64Pos.simps [of x])
    ultimately show ?thesis
      by linarith
  next
    case False
    show ?thesis
    proof (cases "x < 4503599627370496")
      case True
      then have "\<bar>binary64Pos (2 * x) - 2 * x\<bar> \<le> 2 * x / 9007199254740992"
        using "1.IH"(2) "1.prems" False by simp
      moreover have "binary64Pos x = binary64Pos (2 * x) / 2"
        using True False "1.prems" by (simp add: binary64Pos.simps [of x])
      ultimately show ?thesis
        by linarith
    next
      case big: False
      have "\<bar>of_int (roundHalfEven x) - x\<bar> \<le> 1 / 2"
        by (rule roundHalfEven_err)
      moreover have "1 / 2 \<le> x / 9007199254740992"
        using big by simp
      moreover have "binary64Pos x = of_int (roundHalfEven x)"
        using big False by (simp add: binary64Pos.simps [of x])
      ultimately show ?thesis
        by linarith
    qed
  qed
qed

lemma binary64_err: "\<bar>binary64 x - x\<bar> \<le> \<bar>x\<bar> / 9007199254740992"
proof -
  consider "0 < x" | "x < 0" | "x = 0" by linarith
  then show ?thesis
  proof cases
    case 1
    then show ?thesis using binary64Pos_err [of x] by (simp add: binary64_def)
  next
    case 2
    then have "\<bar>binary64Pos (- x) - (- x)\<bar> \<le> (- x) / 9007199254740992"
      using binary64Pos_err [of "- x"] by simp
    moreover have "binary64 x = - binary64Pos (- x)"
      using 2 by (simp add: binary64_def)
    ultimately show ?thesis using 2 by linarith
  next
    case 3
    then show ?thesis by (simp add: binary64_def)
  qed
qed

text \<open>Scaling by 2 commutes with rounding, so a number is rounded in the range of its size.\<close>

lemma binary64Pos_double: "0 < x \<Longrightarrow> binary64Pos (2 * x) = 2 * binary64Pos x"
proof -
  assume x: "0 < x"
  consider "x < 4503599627370496" | "4503599627370496 \<le> x"
    by linarith
  then show ?thesis
  proof cases
    case 1
    then show ?thesis using x by (simp add: binary64Pos.simps [of x])
  next
    case 2
    then have "9007199254740992 \<le> 2 * x" by simp
    then show ?thesis by (simp add: binary64Pos.simps [of "2 * x"])
  qed
qed

lemma binary64Pos_scale: "0 < x \<Longrightarrow> binary64Pos (x * 2 ^ k) = binary64Pos x * 2 ^ k"
proof (induction k)
  case 0
  then show ?case by simp
next
  case (Suc k)
  have "binary64Pos (x * 2 ^ Suc k) = binary64Pos (2 * (x * 2 ^ k))"
    by (simp add: mult.commute mult.left_commute)
  also have "\<dots> = 2 * binary64Pos (x * 2 ^ k)"
    using Suc.prems by (intro binary64Pos_double) simp
  finally show ?case
    using Suc by simp
qed

lemma binary64Pos_at:
  assumes "0 < x" and "\<bar>x * 2 ^ k - of_int n\<bar> < 1 / 2"
    and "4503599627370496 \<le> x * 2 ^ k" and "x * 2 ^ k < 9007199254740992"
  shows "binary64Pos x = of_int n / 2 ^ k"
proof -
  have "binary64Pos (x * 2 ^ k) = of_int (roundHalfEven (x * 2 ^ k))"
    using assms(3,4) by (simp add: binary64Pos.simps [of "x * 2 ^ k"])
  also have "\<dots> = of_int n"
    using roundHalfEven_near [OF assms(2)] by simp
  finally show ?thesis
    using binary64Pos_scale [OF assms(1), of k] by (simp add: field_simps)
qed

lemma binary64_22: "binary64 22 = 22"
  using binary64Pos_at [of 22 48 6192449487634432] by (simp add: binary64_def)

text \<open>
  The formula of the temperature. Its product by 10 is within 1/10000 of the integer
  \<open>220 + hot - cold\<close>, but it is not always that integer (\<open>rounding_needed\<close>): it is
  \<open>Math.round\<close> that gives the integer.
\<close>

lemma Math_round_near: "\<bar>x - of_int n\<bar> < 1 / 2 \<Longrightarrow> Math_round x = n"
  unfolding Math_round_def by (rule floor_unique) linarith+

lemma rounded_sum_near:
  fixes d :: rat
  assumes d: "\<bar>d\<bar> \<le> 4294967296"
  shows "\<bar>binary64 (binary64 (22 + binary64 (d * binary64 (1 / 10))) * 10) - (220 + d)\<bar>
           \<le> 1 / 10000"
proof -
  define c where "c = binary64 (1 / 10)"
  define a where "a = binary64 (d * c)"
  define s where "s = binary64 (22 + a)"
  define p where "p = binary64 (s * 10)"
  have c: "\<bar>c - 1 / 10\<bar> \<le> 1 / 90071992547409920"
    using binary64_err [of "1 / 10"] by (simp add: c_def)
  have "\<bar>d * c - d / 10\<bar> = \<bar>d\<bar> * \<bar>c - 1 / 10\<bar>"
    by (simp add: abs_mult [symmetric] algebra_simps)
  also have "\<dots> \<le> 4294967296 * (1 / 90071992547409920)"
    using d c by (intro mult_mono) simp_all
  finally have dc: "\<bar>d * c - d / 10\<bar> \<le> 1 / 1000000"
    by simp
  then have dcb: "\<bar>d * c\<bar> \<le> 429496730"
    using d by linarith
  have "\<bar>a - d * c\<bar> \<le> \<bar>d * c\<bar> / 9007199254740992"
    unfolding a_def by (rule binary64_err)
  also have "\<dots> \<le> 429496730 / 9007199254740992"
    using dcb by (simp add: divide_right_mono)
  finally have a: "\<bar>a - d / 10\<bar> \<le> 2 / 1000000"
    using dc by linarith
  then have sb: "\<bar>22 + a\<bar> \<le> 429496760"
    using d by linarith
  have "\<bar>s - (22 + a)\<bar> \<le> \<bar>22 + a\<bar> / 9007199254740992"
    unfolding s_def by (rule binary64_err)
  also have "\<dots> \<le> 429496760 / 9007199254740992"
    using sb by (simp add: divide_right_mono)
  finally have s: "\<bar>s - (22 + d / 10)\<bar> \<le> 3 / 1000000"
    using a by linarith
  then have pb: "\<bar>s * 10\<bar> \<le> 4294967600"
    using d by linarith
  have "\<bar>p - s * 10\<bar> \<le> \<bar>s * 10\<bar> / 9007199254740992"
    unfolding p_def by (rule binary64_err)
  also have "\<dots> \<le> 4294967600 / 9007199254740992"
    using pb by (simp add: divide_right_mono)
  finally have "\<bar>p - (220 + d)\<bar> \<le> 1 / 10000"
    using s by linarith
  then show ?thesis
    by (simp add: p_def s_def a_def c_def)
qed

lemma newTemperatureOf_eq:
  assumes "\<bar>int hot - int cold\<bar> \<le> 4294967296"
  shows "newTemperatureOf hot cold = binary64 (of_int (220 + int hot - int cold) / 10)"
proof -
  let ?d = "of_int (int hot - int cold) :: rat"
  have "\<bar>?d\<bar> \<le> 4294967296"
    using assms by (metis of_int_abs of_int_le_iff of_int_numeral)
  then have "\<bar>binary64 (binary64 (22 + binary64 (?d * binary64 (1 / 10))) * 10) - (220 + ?d)\<bar>
               \<le> 1 / 10000"
    by (rule rounded_sum_near)
  moreover have "(of_int (220 + int hot - int cold) :: rat) = 220 + ?d"
    by simp
  ultimately have "\<bar>binary64 (binary64 (22 + binary64 (?d * binary64 (1 / 10))) * 10)
               - of_int (220 + int hot - int cold)\<bar> < 1 / 2"
    by linarith
  then have "Math_round (binary64 (binary64 (22 + binary64 (?d * binary64 (1 / 10))) * 10))
               = 220 + int hot - int cold"
    by (rule Math_round_near)
  then show ?thesis
    by (simp add: newTemperatureOf_def Let_def)
qed

text \<open>
  With 92 more cold votes than hot ones the product is \<open>9007199254740991 / 2^46\<close>, just
  below 128: \<open>Math.round\<close> gives 128 and the temperature 12.8, where rounding down would give
  127 and 12.7.
\<close>

lemma rounding_needed:
  "binary64 (binary64 (22 + binary64 (of_int (int 0 - int 92) * binary64 (1 / 10))) * 10)
     = 9007199254740991 / 2 ^ 46"
  "\<lfloor>9007199254740991 / 2 ^ 46 :: rat\<rfloor> = 127"
  "Math_round (9007199254740991 / 2 ^ 46) = 128"
  "newTemperatureOf 0 92 = binary64 (128 / 10)"
proof -
  have c: "binary64 (1 / 10) = 7205759403792794 / 2 ^ 56"
    using binary64Pos_at [of "1 / 10" 56 7205759403792794] by (simp add: binary64_def)
  have a: "binary64 (- 92 * (7205759403792794 / 2 ^ 56)) = - (5179139571476071 / 2 ^ 49)"
    using binary64Pos_at [of "92 * (7205759403792794 / 2 ^ 56)" 49 5179139571476071]
    by (simp add: binary64_def)
  have s: "binary64 (22 - 5179139571476071 / 2 ^ 49) = 7205759403792793 / 2 ^ 49"
    using binary64Pos_at [of "22 - 5179139571476071 / 2 ^ 49" 49 7205759403792793]
    by (simp add: binary64_def)
  have p: "binary64 (7205759403792793 / 2 ^ 49 * 10) = 9007199254740991 / 2 ^ 46"
    using binary64Pos_at [of "7205759403792793 / 2 ^ 49 * 10" 46 9007199254740991]
    by (simp add: binary64_def)
  have d: "(of_int (int 0 - int 92) :: rat) = - 92"
    by simp
  have m: "22 + - (5179139571476071 / 2 ^ 49) = (22 - 5179139571476071 / 2 ^ 49 :: rat)"
    by simp
  show "binary64 (binary64 (22 + binary64 (of_int (int 0 - int 92) * binary64 (1 / 10))) * 10)
          = 9007199254740991 / 2 ^ 46"
    unfolding d c a m s p ..
  show "\<lfloor>9007199254740991 / 2 ^ 46 :: rat\<rfloor> = 127"
    by (rule floor_unique) simp_all
  show "Math_round (9007199254740991 / 2 ^ 46) = 128"
    unfolding Math_round_def by (rule floor_unique) simp_all
  show "newTemperatureOf 0 92 = binary64 (128 / 10)"
    using newTemperatureOf_eq [of 0 92] by simp
qed

lemma length_update_le: "length (AList.update k v xs) \<le> Suc (length xs)"
  by (induction xs) auto

lemma recentCounts_window:
  assumes "validClock now"
  shows "getRecentVoteCounts now s zid 10
           = (length (filter (\<lambda>vote. v_zoneId vote = zid \<and> v_voteType vote = ''hot''
                                \<and> now - 600000 \<le> v_timestamp vote) (map snd (votes s))),
              length (filter (\<lambda>vote. v_zoneId vote = zid \<and> v_voteType vote = ''cold''
                                \<and> now - 600000 \<le> v_timestamp vote) (map snd (votes s))))"
proof -
  have "TimeClip (now - 10 * 60 * 1000) = Some (now - 600000)"
    using assms by (simp add: TimeClip_def validClock_def maxTime_def abs_le_iff)
  then show ?thesis
    by (simp add: getRecentVoteCounts_def getRecentVotesByZone_def Let_def conj_ac
        cong: filter_cong)
qed

lemma getRecentVoteCounts_votes:
  "votes s1 = votes s \<Longrightarrow> getRecentVoteCounts now s1 zid m = getRecentVoteCounts now s zid m"
  by (simp add: getRecentVoteCounts_def getRecentVotesByZone_def split: option.splits)

lemma parse_voteType:
  "voteRequestSchema_parse body = Inr req \<Longrightarrow> voteType req = ''hot'' \<or> voteType req = ''cold''"
  by (auto simp: voteRequestSchema_parse_def z_string_def z_enum_def
      split: json.splits option.splits sum.splits if_splits)

lemma parse_Inr_iff:
  "(\<exists>req. voteRequestSchema_parse body = Inr req) \<longleftrightarrow>
     (\<exists>props zid vt. body = JObj props \<and> map_of props ''zoneId'' = Some (JStr zid)
        \<and> map_of props ''voteType'' = Some (JStr vt) \<and> (vt = ''hot'' \<or> vt = ''cold''))"
  by (auto simp: voteRequestSchema_parse_def z_string_def z_enum_def
      split: json.splits option.splits sum.splits if_splits)

section \<open>Invariants of the store\<close>

text \<open>
  The hypotheses of the theorems below hold in every state the server reaches: they hold
  when the store is created and every operation keeps them, as long as the clock reads a
  valid time.
\<close>

lemma newMemStorage_invariants:
  "votesStamped (newMemStorage t)" "votesReferenceZones (newMemStorage t)"
  "connectionsStamped (newMemStorage t)"
  by (simp_all add: newMemStorage_def votesStamped_def votesReferenceZones_def
      connectionsStamped_def)

lemma new_wf: "connectionsWellFormed (activeConnections (newMemStorage t0))"
  by (simp add: newMemStorage_def connectionsWellFormed_def)

lemma updateConnection_frame [simp]:
  "zones (snd (updateConnection now u sid s)) = zones s"
  "votes (snd (updateConnection now u sid s)) = votes s"
  "temperatureHistory (snd (updateConnection now u sid s)) = temperatureHistory s"
  by (simp_all add: updateConnection_def Let_def split: option.splits)

lemma wf_find:
  assumes wf: "connectionsWellFormed cs" and mem: "existing \<in> set (map snd cs)"
  shows "find (\<lambda>conn. c_sessionId conn = c_sessionId existing) (map snd cs) = Some existing"
    and "(c_id existing, existing) \<in> set cs"
proof -
  have "distinct (map c_sessionId (map snd cs))"
    using wf by (simp add: connectionsWellFormed_def)
  then show "find (\<lambda>conn. c_sessionId conn = c_sessionId existing) (map snd cs) = Some existing"
    using mem by (rule find_unique)
  obtain k where k: "(k, existing) \<in> set cs"
    using mem by auto
  then have "c_id existing = k"
    using wf by (auto simp: connectionsWellFormed_def list_all_iff)
  then show "(c_id existing, existing) \<in> set cs"
    using k by simp
qed

lemma wf_refresh:
  assumes wf: "connectionsWellFormed cs" and mem: "existing \<in> set (map snd cs)"
  shows "map snd (AList.update (c_id existing) (existing\<lparr>c_lastSeen := now\<rparr>) cs)
           = map (\<lambda>conn. if c_sessionId conn = c_sessionId existing
                          then conn\<lparr>c_lastSeen := now\<rparr> else conn) (map snd cs)"
proof -
  have d: "distinct (map fst cs)" and ds: "distinct (map (c_sessionId \<circ> snd) cs)"
    using wf by (simp_all add: connectionsWellFormed_def)
  have in_cs: "(c_id existing, existing) \<in> set cs"
    using wf_find(2) [OF wf mem] .
  have same: "fst p = c_id existing \<longleftrightarrow> c_sessionId (snd p) = c_sessionId existing"
    if "p \<in> set cs" for p
  proof
    assume "fst p = c_id existing"
    then have "snd p = existing"
      using d that in_cs by (metis eq_key_imp_eq_value prod.collapse)
    then show "c_sessionId (snd p) = c_sessionId existing" by simp
  next
    assume "c_sessionId (snd p) = c_sessionId existing"
    then have "(c_sessionId \<circ> snd) p = (c_sessionId \<circ> snd) (c_id existing, existing)"
      by simp
    then have "p = (c_id existing, existing)"
      using ds that in_cs by (meson distinct_map inj_onD)
    then show "fst p = c_id existing" by simp
  qed
  have eq: "snd p = existing" if "p \<in> set cs" "fst p = c_id existing" for p
    using d that in_cs by (metis eq_key_imp_eq_value prod.collapse)
  show ?thesis
    unfolding update_in_place [OF d in_cs] map_map
    by (rule map_cong) (auto simp: same eq)
qed

lemma updateConnection_wf:
  assumes wf: "connectionsWellFormed (activeConnections s)"
  shows "connectionsWellFormed (activeConnections (snd (updateConnection now uuid sid s)))"
proof (cases "find (\<lambda>conn. c_sessionId conn = sid) (map snd (activeConnections s))")
  case None
  let ?cs = "activeConnections s"
  let ?c = "\<lparr>c_id = uuid, c_sessionId = sid, c_lastSeen = now\<rparr>"
  have new: "activeConnections (snd (updateConnection now uuid sid s)) = AList.update uuid ?c ?cs"
    using None by (simp add: updateConnection_def Let_def)
  have fresh: "c_sessionId ?c \<notin> set (map (c_sessionId \<circ> snd) ?cs)"
    using None by (auto simp: find_None_iff)
  have "distinct (map (c_sessionId \<circ> snd) (AList.update uuid ?c ?cs))"
    using update_fresh_value [of c_sessionId ?cs ?c uuid] wf fresh
    by (simp add: connectionsWellFormed_def)
  moreover have "distinct (map fst (AList.update uuid ?c ?cs))"
    using wf by (simp add: connectionsWellFormed_def distinct_update)
  moreover have "list_all (\<lambda>(k, conn). c_id conn = k) (AList.update uuid ?c ?cs)"
    using wf set_update_subset [of uuid ?c ?cs]
    by (auto simp: connectionsWellFormed_def list_all_iff)
  ultimately show ?thesis
    by (simp add: new connectionsWellFormed_def)
next
  case (Some existing)
  let ?cs = "activeConnections s"
  let ?u = "existing\<lparr>c_lastSeen := now\<rparr>"
  have mem: "existing \<in> set (map snd ?cs)" and sid: "c_sessionId existing = sid"
    using Some by (auto simp: find_Some_iff)
  have new: "activeConnections (snd (updateConnection now uuid sid s))
               = AList.update (c_id existing) ?u ?cs"
    using Some by (simp add: updateConnection_def Let_def)
  have "map c_sessionId (map snd (AList.update (c_id existing) ?u ?cs))
          = map c_sessionId (map snd ?cs)"
    unfolding wf_refresh [OF wf mem] by (simp add: comp_def)
  then have "distinct (map (c_sessionId \<circ> snd) (AList.update (c_id existing) ?u ?cs))"
    using wf by (simp add: connectionsWellFormed_def)
  moreover have "distinct (map fst (AList.update (c_id existing) ?u ?cs))"
    using wf by (simp add: connectionsWellFormed_def distinct_update)
  moreover have "list_all (\<lambda>(k, conn). c_id conn = k) (AList.update (c_id existing) ?u ?cs)"
    using wf set_update_subset [of "c_id existing" ?u ?cs]
    by (auto simp: connectionsWellFormed_def list_all_iff)
  ultimately show ?thesis
    by (simp add: new connectionsWellFormed_def)
qed

lemma cleanup_filter:
  "activeConnections (cleanupOldConnections now minutes s)
     = filter (\<lambda>p. fst p \<notin> set (map fst (filter (\<lambda>(i, connection).
                  (case TimeClip (now - minutes * 60 * 1000) of None \<Rightarrow> False
                   | Some c \<Rightarrow> c_lastSeen connection < c)) (activeConnections s))))
         (activeConnections s)"
  by (simp add: cleanupOldConnections_def Let_def fold_delete_filter)

lemma filter_wf:
  "connectionsWellFormed cs \<Longrightarrow> connectionsWellFormed (filter P cs)"
  by (auto simp: connectionsWellFormed_def distinct_map_filter list_all_iff)

lemma cleanup_wf:
  "connectionsWellFormed (activeConnections s) \<Longrightarrow>
     connectionsWellFormed (activeConnections (cleanupOldConnections now minutes s))"
  unfolding cleanup_filter by (rule filter_wf)

lemma applyConnectionOp_wf:
  "connectionsWellFormed (activeConnections s) \<Longrightarrow>
     connectionsWellFormed (activeConnections (applyConnectionOp op' s))"
  by (cases op') (simp_all add: updateConnection_wf cleanup_wf)

lemma fold_wf:
  "connectionsWellFormed (activeConnections s) \<Longrightarrow>
     connectionsWellFormed (activeConnections (fold applyConnectionOp ops s))"
  by (induction ops arbitrary: s) (simp_all add: applyConnectionOp_wf)

lemma updateConnection_stamped:
  assumes "validClock now" and "connectionsStamped s"
  shows "connectionsStamped (snd (updateConnection now uuid sid s))"
  using assms
  by (auto simp: updateConnection_def connectionsStamped_def Let_def find_Some_iff
      intro!: list_all_update split: option.splits)

lemma cleanup_stamped:
  "connectionsStamped s \<Longrightarrow> connectionsStamped (cleanupOldConnections now minutes s)"
  unfolding connectionsStamped_def cleanup_filter by (auto simp: list_all_iff)

lemma postVote_state:
  assumes parse: "voteRequestSchema_parse body = Inr req"
    and zone: "getZone s (zoneId req) = Some zone"
  shows "\<exists>t. snd (postVoteHandler now uS uC uV uH header body s)
           = (snd (updateConnection now uC (sessionIdOf header uS) s))
               \<lparr>votes := AList.update uV \<lparr>v_id = uV, v_zoneId = zoneId req,
                           v_voteType = voteType req, v_timestamp = now\<rparr> (votes s),
                zones := AList.update (zoneId req)
                           (zone\<lparr>z_temperature := t, z_lastUpdated := now\<rparr>) (zones s),
                temperatureHistory := AList.update uH \<lparr>h_id = uH, h_zoneId = zoneId req,
                           h_temperature = t, h_timestamp = now\<rparr> (temperatureHistory s)\<rparr>"
proof -
  have z: "map_of (zones s) (zoneId req) = Some zone"
    using zone by (simp add: getZone_def)
  show ?thesis
    unfolding postVoteHandler_def parse
    using zone
    by (simp add: Let_def createVote_def updateZoneTemperature_def z addTemperatureHistory_def)
      (rule exI, rule refl)
qed

lemma postVote_cases:
  obtains (rejected) "snd (postVoteHandler now uS uC uV uH header body s) = s"
  | (accepted) req zone where "voteRequestSchema_parse body = Inr req"
      and "getZone s (zoneId req) = Some zone"
proof (cases "voteRequestSchema_parse body")
  case (Inl e)
  then show ?thesis by (intro rejected) (simp add: postVoteHandler_def)
next
  case (Inr req)
  show ?thesis
  proof (cases "getZone s (zoneId req)")
    case None
    then show ?thesis using Inr by (intro rejected) (simp add: postVoteHandler_def)
  next
    case (Some zone)
    then show ?thesis using Inr by (rule accepted [rotated])
  qed
qed

lemma postVote_stamped:
  assumes clk: "validClock now" and st: "votesStamped s"
  shows "votesStamped (snd (postVoteHandler now uS uC uV uH header body s))"
proof (cases rule: postVote_cases [of now uS uC uV uH header body s])
  case rejected
  then show ?thesis using st by simp
next
  case (accepted req zone)
  then obtain t where "snd (postVoteHandler now uS uC uV uH header body s)
           = (snd (updateConnection now uC (sessionIdOf header uS) s))
               \<lparr>votes := AList.update uV \<lparr>v_id = uV, v_zoneId = zoneId req,
                           v_voteType = voteType req, v_timestamp = now\<rparr> (votes s),
                zones := AList.update (zoneId req)
                           (zone\<lparr>z_temperature := t, z_lastUpdated := now\<rparr>) (zones s),
                temperatureHistory := AList.update uH \<lparr>h_id = uH, h_zoneId = zoneId req,
                           h_temperature = t, h_timestamp = now\<rparr> (temperatureHistory s)\<rparr>"
    using postVote_state by blast
  then show ?thesis
    using clk st by (simp add: votesStamped_def list_all_update)
qed

lemma postVote_references:
  assumes ref: "votesReferenceZones s"
  shows "votesReferenceZones (snd (postVoteHandler now uS uC uV uH header body s))"
proof (cases rule: postVote_cases [of now uS uC uV uH header body s])
  case rejected
  then show ?thesis using ref by simp
next
  case (accepted req zone)
  then obtain t where e: "snd (postVoteHandler now uS uC uV uH header body s)
           = (snd (updateConnection now uC (sessionIdOf header uS) s))
               \<lparr>votes := AList.update uV \<lparr>v_id = uV, v_zoneId = zoneId req,
                           v_voteType = voteType req, v_timestamp = now\<rparr> (votes s),
                zones := AList.update (zoneId req)
                           (zone\<lparr>z_temperature := t, z_lastUpdated := now\<rparr>) (zones s),
                temperatureHistory := AList.update uH \<lparr>h_id = uH, h_zoneId = zoneId req,
                           h_temperature = t, h_timestamp = now\<rparr> (temperatureHistory s)\<rparr>"
    using postVote_state by blast
  have "list_all (\<lambda>vote. map_of (AList.update (zoneId req)
                    (zone\<lparr>z_temperature := t, z_lastUpdated := now\<rparr>) (zones s)) (v_zoneId vote) \<noteq> None)
          (map snd (votes s))"
    using ref by (auto simp: votesReferenceZones_def getZone_def list_all_iff update_conv')
  then show ?thesis
    unfolding e votesReferenceZones_def getZone_def
    by (simp add: list_all_update update_conv')
qed

lemma postVote_connections:
  assumes clk: "validClock now" and st: "connectionsStamped s"
    and wf: "connectionsWellFormed (activeConnections s)"
  shows "connectionsStamped (snd (postVoteHandler now uS uC uV uH header body s))"
    and "connectionsWellFormed (activeConnections (snd (postVoteHandler now uS uC uV uH header body s)))"
proof -
  have "connectionsStamped (snd (postVoteHandler now uS uC uV uH header body s))
        \<and> connectionsWellFormed (activeConnections (snd (postVoteHandler now uS uC uV uH header body s)))"
  proof (cases rule: postVote_cases [of now uS uC uV uH header body s])
    case rejected
    then show ?thesis using st wf by simp
  next
    case (accepted req zone)
    then obtain t where e: "snd (postVoteHandler now uS uC uV uH header body s)
           = (snd (updateConnection now uC (sessionIdOf header uS) s))
               \<lparr>votes := AList.update uV \<lparr>v_id = uV, v_zoneId = zoneId req,
                           v_voteType = voteType req, v_timestamp = now\<rparr> (votes s),
                zones := AList.update (zoneId req)
                           (zone\<lparr>z_temperature := t, z_lastUpdated := now\<rparr>) (zones s),
                temperatureHistory := AList.update uH \<lparr>h_id = uH, h_zoneId = zoneId req,
                           h_temperature = t, h_timestamp = now\<rparr> (temperatureHistory s)\<rparr>"
      using postVote_state by blast
    show ?thesis
      unfolding e
      using updateConnection_stamped [OF clk st, of uC "sessionIdOf header uS"]
        updateConnection_wf [OF wf, of now uC "sessionIdOf header uS"]
      by (simp add: connectionsStamped_def)
  qed
  then show "connectionsStamped (snd (postVoteHandler now uS uC uV uH header body s))"
    and "connectionsWellFormed (activeConnections (snd (postVoteHandler now uS uC uV uH header body s)))"
    by simp_all
qed

lemma getZones_invariants:
  assumes clk: "validClock now" and st: "connectionsStamped s"
    and wf: "connectionsWellFormed (activeConnections s)"
  shows "connectionsStamped (snd (getZonesHandler now uS uC header s))"
    and "connectionsWellFormed (activeConnections (snd (getZonesHandler now uS uC header s)))"
  using updateConnection_stamped [OF clk st, of uC "sessionIdOf header uS"]
    updateConnection_wf [OF wf, of now uC "sessionIdOf header uS"]
  by (simp_all add: getZonesHandler_def Let_def)

lemma capture_frame:
  "zones (captureTemperatureHistory now uuid s) = zones s"
  "votes (captureTemperatureHistory now uuid s) = votes s"
  "activeConnections (captureTemperatureHistory now uuid s) = activeConnections s"
proof -
  have f: "zones (fold (\<lambda>(n, zone) st.
             snd (addTemperatureHistory now (uuid n) (z_id zone) (z_temperature zone) st)) xs st)
          = zones st
      \<and> votes (fold (\<lambda>(n, zone) st.
             snd (addTemperatureHistory now (uuid n) (z_id zone) (z_temperature zone) st)) xs st)
          = votes st
      \<and> activeConnections (fold (\<lambda>(n, zone) st.
             snd (addTemperatureHistory now (uuid n) (z_id zone) (z_temperature zone) st)) xs st)
          = activeConnections st" for xs st
    by (induction xs arbitrary: st) (auto simp: addTemperatureHistory_def Let_def)
  show "zones (captureTemperatureHistory now uuid s) = zones s"
    "votes (captureTemperatureHistory now uuid s) = votes s"
    "activeConnections (captureTemperatureHistory now uuid s) = activeConnections s"
    by (simp_all add: captureTemperatureHistory_def f)
qed

lemma getZones_frame:
  "zones (snd (getZonesHandler now uS uC header s)) = zones s"
  "votes (snd (getZonesHandler now uS uC header s)) = votes s"
  by (simp_all add: getZonesHandler_def Let_def)

lemma cleanup_frame:
  "zones (cleanupOldConnections now minutes s) = zones s"
  "votes (cleanupOldConnections now minutes s) = votes s"
  by (simp_all add: cleanupOldConnections_def Let_def)

lemma reachable_invariants:
  "reachable s \<Longrightarrow>
     votesStamped s \<and> votesReferenceZones s \<and> connectionsStamped s
       \<and> connectionsWellFormed (activeConnections s)"
proof (induction rule: reachable.induct)
  case (started now)
  then show ?case by (simp add: newMemStorage_invariants new_wf)
next
  case (zonesRead s now uS uC header)
  then show ?case
    using getZones_invariants [of now s uS uC header]
    by (simp add: votesStamped_def votesReferenceZones_def getZone_def getZones_frame)
next
  case (voted s now uS uC uV uH header body)
  then show ?case
    using postVote_stamped [of now s] postVote_references [of s] postVote_connections [of now s]
    by simp
next
  case (swept s now)
  then show ?case
    using cleanup_stamped [of s now 5] cleanup_wf [of s now 5]
    by (simp add: votesStamped_def votesReferenceZones_def getZone_def cleanup_frame)
next
  case (captured s now uuid)
  then show ?case
    by (simp add: votesStamped_def votesReferenceZones_def getZone_def connectionsStamped_def
        capture_frame)
qed

section \<open>The demo store\<close>

lemmas storage_defs =
  postVoteHandler_def voteRequestSchema_parse_def z_string_def z_enum_def getZone_def
  newMemStorage_def initializeDefaultZones_def defaultZones_def sessionIdOf_def
  updateConnection_def createVote_def getRecentVoteCounts_def getRecentVotesByZone_def
  TimeClip_def maxTime_def newTemperatureOf_eq updateZoneTemperature_def
  addTemperatureHistory_def Let_def

lemma demo_votes:
  "votes demoStorage = [(''vote-1'', \<lparr>v_id = ''vote-1'', v_zoneId = ''zone-a'',
       v_voteType = ''hot'', v_timestamp = 1700000000000\<rparr>)]"
  by (simp add: demoStorage_def demoVote_def storage_defs)

lemma demo_zones:
  "zones demoStorage =
     [(''standing'', \<lparr>z_id = ''standing'', z_name = ''1F Standing Area'', z_temperature = binary64 (223 / 10),
         z_hotVotes = 0, z_coldVotes = 0, z_activeVoters = 0, z_lastUpdated = 1699999000000\<rparr>),
      (''zone-a'', \<lparr>z_id = ''zone-a'', z_name = ''1F Zone A'', z_temperature = binary64 (221 / 10),
         z_hotVotes = 0, z_coldVotes = 0, z_activeVoters = 0, z_lastUpdated = 1700000000000\<rparr>),
      (''zone-b'', \<lparr>z_id = ''zone-b'', z_name = ''1F Zone B'', z_temperature = binary64 (227 / 10),
         z_hotVotes = 0, z_coldVotes = 0, z_activeVoters = 0, z_lastUpdated = 1699999000000\<rparr>),
      (''zone-c'', \<lparr>z_id = ''zone-c'', z_name = ''2F Zone C'', z_temperature = binary64 (215 / 10),
         z_hotVotes = 0, z_coldVotes = 0, z_activeVoters = 0, z_lastUpdated = 1699999000000\<rparr>),
      (''recharge'', \<lparr>z_id = ''recharge'', z_name = ''2F Recharge Zone'', z_temperature = binary64 (231 / 10),
         z_hotVotes = 0, z_coldVotes = 0, z_activeVoters = 0, z_lastUpdated = 1699999000000\<rparr>)]"
  by (simp add: demoStorage_def demoVote_def storage_defs)

lemma demo_connections:
  "activeConnections demoStorage =
     [(''conn-1'', \<lparr>c_id = ''conn-1'', c_sessionId = ''session-1'', c_lastSeen = 1700000000000\<rparr>)]"
  by (simp add: demoStorage_def demoVote_def storage_defs)

lemma demo_history:
  "temperatureHistory demoStorage =
     [(''hist-1'', \<lparr>h_id = ''hist-1'', h_zoneId = ''zone-a'', h_temperature = binary64 (221 / 10),
         h_timestamp = 1700000000000\<rparr>)]"
  by (simp add: demoStorage_def demoVote_def storage_defs)

text \<open>
  The example of the specification: \<open>zone-a\<close> starts at 21.8 and three hot votes within a
  minute bring it to 22.3.
\<close>

lemma demo_three_hot_votes:
  "map_option z_temperature
     (getZone
        (snd (postVoteHandler 1700000050000 ''s'' ''c3'' ''v3'' ''h3'' (Some ''session-1'') demoVote
          (snd (postVoteHandler 1700000040000 ''s'' ''c2'' ''v2'' ''h2'' (Some ''session-1'') demoVote
            (snd (postVoteHandler 1700000030000 ''s'' ''c1'' ''v1'' ''h1'' (Some ''session-1'') demoVote
               (newMemStorage 1699999000000)))))))
        ''zone-a'')
     = Some (binary64 (223 / 10))"
  by (simp add: demoVote_def storage_defs)

lemma demo_stamped: "votesStamped demoStorage"
  by (simp add: votesStamped_def demo_votes validClock_def maxTime_def)

lemma demo_references: "votesReferenceZones demoStorage"
  by (simp add: votesReferenceZones_def demo_votes getZone_def demo_zones)

lemma demo_connections_stamped: "connectionsStamped demoStorage"
  by (simp add: connectionsStamped_def demo_connections validClock_def maxTime_def)

lemma clock_1700000300000: "validClock 1700000300000"
  by (simp add: validClock_def maxTime_def)

section \<open>GET /api/zones/:id/vote-history\<close>

declare seriesLoop.simps [simp del]

text \<open>The loop, when every round succeeds and the array has room for the entries.\<close>

lemma seriesLoop_Inr:
  assumes "\<And>j. 0 \<le> j \<Longrightarrow> j \<le> i \<Longrightarrow> intervalEntry tz now m j = Inr (f j)"
    and "int (length result) + i + 1 \<le> 4294967295"
  shows "seriesLoop tz now m i result
           = Inr (result @ map (\<lambda>k. f (i - int k)) [0..<nat (i + 1)])"
  using assms
proof (induction tz now m i result rule: seriesLoop.induct)
  case (1 tz now m i result)
  show ?case
  proof (cases "i \<ge> 0")
    case False
    then show ?thesis by (simp add: seriesLoop.simps [of tz now m i result])
  next
    case True
    have e: "intervalEntry tz now m i = Inr (f i)"
      using "1.prems" True by simp
    have p: "push result (f i) = Inr (result @ [f i])"
      using "1.prems"(2) True by (simp add: push_def)
    have ih: "seriesLoop tz now m (i - 1) (result @ [f i])
                = Inr ((result @ [f i]) @ map (\<lambda>k. f (i - 1 - int k)) [0..<nat (i - 1 + 1)])"
      using "1.IH" [OF True e p] "1.prems" by simp
    have n: "nat (i + 1) = Suc (nat i)"
      using True by simp
    have "map (\<lambda>k. f (i - int k)) [0..<Suc (nat i)]
            = f i # map (\<lambda>k. f (i - 1 - int k)) [0..<nat i]"
      by (simp add: upt_conv_Cons map_Suc_upt [symmetric] del: upt_Suc) (simp add: algebra_simps)
    then show ?thesis
      using True e p ih by (simp add: seriesLoop.simps [of tz now m i result] n)
  qed
qed

text \<open>The loop never returns more entries than an array holds.\<close>

lemma seriesLoop_room:
  "seriesLoop tz now m i result = Inr es \<Longrightarrow> 0 \<le> i \<Longrightarrow>
     int (length result) + i + 1 \<le> 4294967295"
proof (induction tz now m i result rule: seriesLoop.induct)
  case (1 tz now m i result)
  from "1.prems" obtain entry where e: "intervalEntry tz now m i = Inr entry"
    by (cases "intervalEntry tz now m i") (simp_all add: seriesLoop.simps [of tz now m i result])
  from "1.prems" e obtain result' where p: "push result entry = Inr result'"
    by (cases "push result entry") (simp_all add: seriesLoop.simps [of tz now m i result])
  have r: "result' = result @ [entry]" and l: "length result < 4294967295"
    using p by (simp_all add: push_def split: if_splits)
  have rec: "seriesLoop tz now m (i - 1) result' = Inr es"
    using "1.prems" e p by (simp add: seriesLoop.simps [of tz now m i result])
  show ?case
  proof (cases "0 \<le> i - 1")
    case True
    then have "int (length result') + (i - 1) + 1 \<le> 4294967295"
      using "1.IH" [OF "1.prems"(2) e p rec] by simp
    then show ?thesis
      by (simp add: r)
  next
    case False
    then show ?thesis
      using "1.prems"(2) l by simp
  qed
qed

lemma intervalEntry_ok:
  assumes "- maxTime + 600000 \<le> now - j * 600000" and "now - j * 600000 \<le> maxTime"
  shows "intervalEntry (fixedZone off) now m j = Inr (entryAt off now m j)"
proof -
  have c: "TimeClip (now - j * 10 * 60 * 1000) = Some (now - j * 600000)"
    using assms by (simp add: TimeClip_def)
  have lo: "now - j * 600000 < bucketStart off (now - j * 600000) + 600000"
    by (rule bucketStart_gt)
  have hi: "bucketStart off (now - j * 600000) \<le> now - j * 600000"
    by (rule bucketStart_le)
  have b: "TimeClip (bucketStart off (now - j * 600000)) = Some (bucketStart off now - j * 600000)"
    using assms lo hi TimeClip_Some [of "bucketStart off (now - j * 600000)"]
    by (simp add: bucketStart_shift)
  show ?thesis
    unfolding intervalEntry_def c roundDown10_Some b
    by (simp add: toISOString_def entryAt_def countsAt_def Let_def)
qed

lemma intervalEntry_keeps:
  assumes "zoneKeepsRange tz"
    and "- maxTime + 600000 \<le> now - j * 600000" and "now - j * 600000 \<le> maxTime"
  shows "\<exists>t. intervalEntry tz now m j
               = Inr \<lparr>e_timestamp = t, e_hotVotes = fst (countsAt m t),
                       e_coldVotes = snd (countsAt m t)\<rparr>"
proof -
  have c: "TimeClip (now - j * 10 * 60 * 1000) = Some (now - j * 600000)"
    using assms(2,3) by (simp add: TimeClip_def)
  obtain t where "roundDown10 tz (Some (now - j * 600000)) = Some t"
    using assms by (auto simp: zoneKeepsRange_def)
  then show ?thesis
    unfolding intervalEntry_def c
    by (simp add: toISOString_def countsAt_def Let_def)
qed

lemma grid_in_range:
  assumes "validClock now" and "0 \<le> j" and "j \<le> n * 6 - 1" and "n * 6 \<le> 4294967295"
  shows "- maxTime + 600000 \<le> now - j * 600000" and "now - j * 600000 \<le> maxTime"
  using assms by (simp_all add: validClock_def maxTime_def)

lemma addVote_ok:
  assumes "zoneKeepsRange tz" and "validClock (v_timestamp vote)"
  shows "\<exists>m'. addVote tz vote m = Inr m'"
proof -
  let ?t = "v_timestamp vote"
  have c: "TimeClip ?t = Some ?t"
    using assms(2) by (simp add: validClock_def TimeClip_def maxTime_def)
  have "- maxTime + 600000 \<le> ?t" "?t \<le> maxTime"
    using assms(2) by (simp_all add: validClock_def maxTime_def)
  then obtain t where "roundDown10 tz (Some ?t) = Some t"
    using assms(1) by (auto simp: zoneKeepsRange_def)
  then show ?thesis
    by (simp add: addVote_def c toISOString_def Let_def)
qed

lemma forEachVote_ok:
  "zoneKeepsRange tz \<Longrightarrow> list_all (\<lambda>vote. validClock (v_timestamp vote)) vs \<Longrightarrow>
     \<exists>m'. forEachVote tz vs m = Inr m'"
proof (induction vs arbitrary: m)
  case Nil
  then show ?case by simp
next
  case (Cons vote vs)
  then obtain m1 where "addVote tz vote m = Inr m1"
    using addVote_ok [of tz vote m] by auto
  then show ?case using Cons by simp
qed

lemma recentVotes_stamped:
  "votesStamped s \<Longrightarrow>
     list_all (\<lambda>vote. validClock (v_timestamp vote)) (getRecentVotesByZone now s zid minutes)"
  by (auto simp: votesStamped_def getRecentVotesByZone_def list_all_iff split: option.splits)

text \<open>The series in a zone of constant offset.\<close>

lemma voteHistory_run:
  assumes clk: "validClock now"
    and len: "hoursOf p * 6 \<le> 4294967295"
    and fe: "forEachVote (fixedZone off) (getRecentVotesByZone now s zid (hoursOf p * 60)) Map.empty
               = Inr m"
  shows "voteHistoryHandler (fixedZone off) now s zid p
           = Inr (map (\<lambda>k. entryAt off now m (hoursOf p * 6 - 1 - int k)) [0..<nat (hoursOf p * 6)])"
proof -
  have e: "intervalEntry (fixedZone off) now m j = Inr (entryAt off now m j)"
    if j: "0 \<le> j" "j \<le> hoursOf p * 6 - 1" for j
    using grid_in_range [OF clk j len] by (rule intervalEntry_ok)
  have "seriesLoop (fixedZone off) now m (hoursOf p * 6 - 1) []
          = Inr ([] @ map (\<lambda>k. entryAt off now m (hoursOf p * 6 - 1 - int k))
                        [0..<nat (hoursOf p * 6 - 1 + 1)])"
    using len by (intro seriesLoop_Inr e) simp_all
  then show ?thesis
    by (simp add: voteHistoryHandler_def Let_def fe)
qed

text \<open>The series in any zone in which rounding stays inside the Date range.\<close>

lemma voteHistory_entries:
  assumes keeps: "zoneKeepsRange tz" and clk: "validClock now"
    and len: "hoursOf p * 6 \<le> 4294967295"
    and fe: "forEachVote tz (getRecentVotesByZone now s zid (hoursOf p * 60)) Map.empty = Inr m"
  shows "\<exists>es. voteHistoryHandler tz now s zid p = Inr es
           \<and> length es = nat (hoursOf p * 6)
           \<and> list_all (\<lambda>e. e_hotVotes e = fst (countsAt m (e_timestamp e))
                           \<and> e_coldVotes e = snd (countsAt m (e_timestamp e))) es"
proof -
  define f where "f j = projr (intervalEntry tz now m j)" for j
  have e: "intervalEntry tz now m j = Inr (f j)
           \<and> e_hotVotes (f j) = fst (countsAt m (e_timestamp (f j)))
           \<and> e_coldVotes (f j) = snd (countsAt m (e_timestamp (f j)))"
    if j: "0 \<le> j" "j \<le> hoursOf p * 6 - 1" for j
  proof -
    obtain t where "intervalEntry tz now m j
               = Inr \<lparr>e_timestamp = t, e_hotVotes = fst (countsAt m t),
                       e_coldVotes = snd (countsAt m t)\<rparr>"
      using intervalEntry_keeps [OF keeps grid_in_range [OF clk j len]] by blast
    then show ?thesis
      by (simp add: f_def)
  qed
  define es where "es = map (\<lambda>k. f (hoursOf p * 6 - 1 - int k)) [0..<nat (hoursOf p * 6)]"
  have "seriesLoop tz now m (hoursOf p * 6 - 1) []
          = Inr ([] @ map (\<lambda>k. f (hoursOf p * 6 - 1 - int k)) [0..<nat (hoursOf p * 6 - 1 + 1)])"
    using len e by (intro seriesLoop_Inr) simp_all
  then have run: "voteHistoryHandler tz now s zid p = Inr es"
    by (simp add: voteHistoryHandler_def Let_def fe es_def)
  have "e_hotVotes x = fst (countsAt m (e_timestamp x))
          \<and> e_coldVotes x = snd (countsAt m (e_timestamp x))" if x: "x \<in> set es" for x
  proof -
    from x obtain k where "k < length es" "es ! k = x"
      by (auto simp: in_set_conv_nth)
    then have k: "k < nat (hoursOf p * 6)" "x = f (hoursOf p * 6 - 1 - int k)"
      by (auto simp: es_def)
    then show ?thesis
      using e [of "hoursOf p * 6 - 1 - int k"] by simp
  qed
  then show ?thesis
    using run by (intro exI [of _ es]) (simp add: es_def list_all_iff)
qed

lemma entryAt_timestamp [simp]:
  "e_timestamp (entryAt off now m j) = bucketStart off now - j * 600000"
  by (simp add: entryAt_def Let_def)

lemma hoursOf_pos: "0 < h \<Longrightarrow> hoursOf (Some h) = h"
  by (simp add: hoursOf_def)

lemma voteHistory_zero:
  assumes keeps: "zoneKeepsRange tz" and clk: "validClock now"
    and len: "hoursOf p * 6 \<le> 4294967295"
    and none: "getRecentVotesByZone now s zid (hoursOf p * 60) = []"
  shows "\<exists>es. voteHistoryHandler tz now s zid p = Inr es
           \<and> length es = nat (hoursOf p * 6)
           \<and> list_all (\<lambda>e. e_hotVotes e = 0 \<and> e_coldVotes e = 0) es"
proof -
  have fe: "forEachVote tz (getRecentVotesByZone now s zid (hoursOf p * 60)) Map.empty
              = Inr Map.empty"
    by (simp add: none)
  show ?thesis
    using voteHistory_entries [OF keeps clk len fe] by (simp add: countsAt_def)
qed

text \<open>
  A series of more entries than an array holds is never returned: the handler answers 500.
\<close>

lemma voteHistory_too_long:
  assumes "4294967295 < hoursOf p * 6"
  shows "voteHistoryHandler tz now s zid p = Inl InternalError"
proof -
  have ne: "seriesLoop tz now m (hoursOf p * 6 - 1) [] \<noteq> Inr es" for m es
    using seriesLoop_room [of tz now m "hoursOf p * 6 - 1" "[]" es] assms by auto
  show ?thesis
    using ne by (auto simp: voteHistoryHandler_def Let_def split: sum.splits)
qed

text \<open>
  When the oldest interval of the grid lies before the Date range, the first round of the
  loop already throws.
\<close>

lemma voteHistory_out_of_range:
  assumes pos: "0 < hoursOf p"
    and low: "now - (hoursOf p * 6 - 1) * 600000 < - maxTime"
  shows "voteHistoryHandler tz now s zid p = Inl InternalError"
proof -
  have "TimeClip (now - (hoursOf p * 6 - 1) * 10 * 60 * 1000) = None"
    using low by (simp add: TimeClip_def abs_le_iff)
  then have "intervalEntry tz now m (hoursOf p * 6 - 1) = Inl RangeError" for m
    by (simp add: intervalEntry_def roundDown10_None toISOString_def)
  then have "seriesLoop tz now m (hoursOf p * 6 - 1) [] = Inl RangeError" for m
    using pos by (simp add: seriesLoop.simps [of tz now m "hoursOf p * 6 - 1" "[]"])
  then show ?thesis
    by (simp add: voteHistoryHandler_def Let_def split: sum.splits)
qed

text \<open>
  The series of the demo store five minutes after its vote, in Seoul: the vote sits in the
  last bucket.
\<close>

lemma demo_series:
  "voteHistoryHandler (fixedZone 32400000) 1700000300000 demoStorage ''zone-a'' (Some 1)
     = Inr [\<lparr>e_timestamp = 1699996800000, e_hotVotes = 0, e_coldVotes = 0\<rparr>,
            \<lparr>e_timestamp = 1699997400000, e_hotVotes = 0, e_coldVotes = 0\<rparr>,
            \<lparr>e_timestamp = 1699998000000, e_hotVotes = 0, e_coldVotes = 0\<rparr>,
            \<lparr>e_timestamp = 1699998600000, e_hotVotes = 0, e_coldVotes = 0\<rparr>,
            \<lparr>e_timestamp = 1699999200000, e_hotVotes = 0, e_coldVotes = 0\<rparr>,
            \<lparr>e_timestamp = 1699999800000, e_hotVotes = 1, e_coldVotes = 0\<rparr>]"
proof -
  have b: "bucketStart 32400000 1700000300000 = 1699999800000"
    "bucketStart 32400000 1700000000000 = 1699999800000"
    by (simp_all add: bucketStart_def)
  have fe: "forEachVote (fixedZone 32400000)
              (getRecentVotesByZone 1700000300000 demoStorage ''zone-a'' (hoursOf (Some 1) * 60))
              Map.empty
            = Inr [MinuteKey 28333330 \<mapsto> (1, 0)]"
    by (simp add: getRecentVotesByZone_def demo_votes hoursOf_def TimeClip_def maxTime_def
        addVote_def roundDown10_Some b toISOString_def substring16_def Let_def)
  have n: "[0..<6] = [0, 1, 2, 3, 4, 5]"
    by (simp add: upt_rec)
  have len: "hoursOf (Some 1) * 6 \<le> 4294967295"
    by (simp add: hoursOf_def)
  show ?thesis
    unfolding voteHistory_run [OF clock_1700000300000 len fe]
    by (simp add: hoursOf_def n entryAt_def countsAt_def b substring16_def Let_def)
qed




text \<open>
  It also fails for large \<open>hours\<close> in every zone: with \<open>hours = 3000000000\<close> the Date of the
  oldest interval is invalid, \<open>toISOString\<close> throws a RangeError and the handler answers 500.
\<close>

lemma voteHistory_grid_huge_hours:
  "voteHistoryHandler (fixedZone 0) 1700000000000 (newMemStorage 1700000000000) ''zone-a''
     (Some 3000000000) = Inl InternalError"
  by (simp add: voteHistory_too_long hoursOf_def)

text \<open>
  Claim C8, as amended. For every zone id and every positive \<open>hours\<close> with \<open>hours * 6\<close> at
  most 2^32 - 1: when no vote of the zone falls within the last \<open>hours * 60\<close> minutes, the
  handler returns \<open>hours * 6\<close> entries and every entry has \<open>hotVotes = 0\<close> and
  \<open>coldVotes = 0\<close>. For a larger \<open>hours\<close> it answers 500. The clock is a valid clock
  reading, and the time zone is any zone that keeps the rounded Dates inside the Date
  range, of constant offset or not.
\<close>

theorem voteHistory_no_votes:
  assumes keeps: "zoneKeepsRange tz" and clk: "validClock now" and pos: "0 < h"
    and none: "\<forall>vote \<in> set (map snd (votes s)).
                 v_zoneId vote = zid \<longrightarrow> v_timestamp vote < now - h * 3600000"
  shows "(h * 6 \<le> 4294967295 \<longrightarrow>
            (\<exists>es. voteHistoryHandler tz now s zid (Some h) = Inr es
               \<and> length es = nat (h * 6)
               \<and> list_all (\<lambda>e. e_hotVotes e = 0 \<and> e_coldVotes e = 0) es))
         \<and> (4294967295 < h * 6 \<longrightarrow> voteHistoryHandler tz now s zid (Some h) = Inl InternalError)"
proof (intro conjI impI)
  assume len: "h * 6 \<le> 4294967295"
  have "getRecentVotesByZone now s zid (h * 60) = []"
    using none by (auto simp: getRecentVotesByZone_def filter_empty_conv split: option.splits)
      (auto simp: TimeClip_def split: if_splits)
  then show "\<exists>es. voteHistoryHandler tz now s zid (Some h) = Inr es
               \<and> length es = nat (h * 6)
               \<and> list_all (\<lambda>e. e_hotVotes e = 0 \<and> e_coldVotes e = 0) es"
    using voteHistory_zero [of tz now "Some h" s zid] keeps clk len pos by (simp add: hoursOf_pos)
next
  assume "4294967295 < h * 6"
  then show "voteHistoryHandler tz now s zid (Some h) = Inl InternalError"
    using pos by (intro voteHistory_too_long) (simp add: hoursOf_pos)
qed

theorem voteHistory_no_votes_witness:
  "zoneKeepsRange newYork2023 \<and> validClock 1700007200000 \<and> (0::int) < 1
     \<and> map (\<lambda>vote. (v_zoneId vote, v_timestamp vote)) (map snd (votes demoStorage))
          = [(''zone-a'', 1700000000000)]
     \<and> (\<exists>es. voteHistoryHandler newYork2023 1700007200000 demoStorage ''zone-a'' (Some 1) = Inr es
            \<and> length es = 6
            \<and> list_all (\<lambda>e. e_hotVotes e = 0 \<and> e_coldVotes e = 0) es)"
  using voteHistory_no_votes [where now = 1700007200000 and h = 1 and s = demoStorage
      and zid = "''zone-a''" and tz = newYork2023]
  by (simp add: validClock_def maxTime_def demo_votes newYork2023_keepsRange)

text \<open>
  The claim as stated, for every positive \<open>hours\<close>, fails in a store without votes:
  \<open>hours = 2500000000\<close> is answered with 500 and no series.
\<close>

theorem voteHistory_no_votes_counterexample:
  "voteHistoryHandler (fixedZone 0) 1700000000000 (newMemStorage 1700000000000) ''zone-b''
     (Some 2500000000) = Inl InternalError"
  by (simp add: voteHistoryHandler_def hoursOf_def getRecentVotesByZone_def newMemStorage_def
      TimeClip_def maxTime_def intervalEntry_def roundDown10_None toISOString_def
      seriesLoop.simps [of "fixedZone 0" 1700000000000 Map.empty 14999999999 "[]"])

text \<open>
  Claim C9. When \<open>parseInt\<close> of the \<open>hours\<close> parameter is NaN (the parameter is missing or
  not numeric) or 0, the handler uses 6 hours: it returns a series of 36 entries, never an
  empty one. This holds in every time zone that keeps the rounded Dates inside the Date
  range, so in every zone of constant offset (\<open>fixedZone_keepsRange\<close>) and across a change
  of the offset (\<open>newYork2023_keepsRange\<close>).
\<close>

theorem voteHistory_default_hours:
  assumes keeps: "zoneKeepsRange tz"
    and clk: "validClock now" and st: "votesStamped s" and dflt: "p = None \<or> p = Some 0"
  shows "\<exists>es. voteHistoryHandler tz now s zid p = Inr es \<and> length es = 36"
proof -
  have h: "hoursOf p = 6"
    using dflt by (auto simp: hoursOf_def)
  obtain m where fe:
    "forEachVote tz (getRecentVotesByZone now s zid (hoursOf p * 60)) Map.empty = Inr m"
    using forEachVote_ok [OF keeps recentVotes_stamped [OF st]] by blast
  have len: "hoursOf p * 6 \<le> 4294967295"
    by (simp add: h)
  show ?thesis
    using voteHistory_entries [OF keeps clk len fe] by (auto simp: h)
qed

theorem voteHistory_default_hours_witness:
  "zoneKeepsRange (fixedZone 32400000) \<and> validClock 1700000300000 \<and> votesStamped demoStorage
     \<and> (\<exists>es. voteHistoryHandler (fixedZone 32400000) 1700000300000 demoStorage ''zone-a'' None
              = Inr es
            \<and> length es = 36)
     \<and> (\<exists>es. voteHistoryHandler (fixedZone 32400000) 1700000300000 demoStorage ''zone-a'' (Some 0)
              = Inr es
            \<and> length es = 36)"
  using voteHistory_default_hours [OF fixedZone_keepsRange clock_1700000300000 demo_stamped,
      of None 32400000 "''zone-a''"]
    voteHistory_default_hours [OF fixedZone_keepsRange clock_1700000300000 demo_stamped,
      of "Some 0" 32400000 "''zone-a''"]
    clock_1700000300000 demo_stamped fixedZone_keepsRange [of 32400000]
  by simp

text \<open>
  Claim C10, as amended. The handler never answers NotFoundError. For a zone id that no
  stored zone has, in a store whose votes all reference stored zones: when \<open>hours * 6\<close> is
  at most 2^32 - 1, it succeeds with the full series of \<open>hours * 6\<close> entries (none for a
  negative \<open>hours\<close>), every count 0; when \<open>hours * 6\<close> is larger, it answers 500. For the
  series the clock is a valid clock reading and the time zone keeps the rounded Dates
  inside the Date range; the other two parts hold for every clock, zone and store.
\<close>

theorem voteHistory_unknown_zone:
  "voteHistoryHandler tz now s zid p \<noteq> Inl NotFoundError
   \<and> (4294967295 < hoursOf p * 6 \<longrightarrow> voteHistoryHandler tz now s zid p = Inl InternalError)
   \<and> (zoneKeepsRange tz \<and> validClock now \<and> votesReferenceZones s \<and> getZone s zid = None
        \<and> hoursOf p * 6 \<le> 4294967295
      \<longrightarrow> (\<exists>es. voteHistoryHandler tz now s zid p = Inr es
             \<and> length es = nat (hoursOf p * 6)
             \<and> list_all (\<lambda>e. e_hotVotes e = 0 \<and> e_coldVotes e = 0) es))"
proof (intro conjI impI)
  show "voteHistoryHandler tz now s zid p \<noteq> Inl NotFoundError"
    by (simp add: voteHistoryHandler_def Let_def split: sum.splits)
next
  assume "4294967295 < hoursOf p * 6"
  then show "voteHistoryHandler tz now s zid p = Inl InternalError"
    by (rule voteHistory_too_long)
next
  assume a: "zoneKeepsRange tz \<and> validClock now \<and> votesReferenceZones s \<and> getZone s zid = None
        \<and> hoursOf p * 6 \<le> 4294967295"
  then have "getRecentVotesByZone now s zid (hoursOf p * 60) = []"
    by (auto simp: getRecentVotesByZone_def votesReferenceZones_def list_all_iff filter_empty_conv
        split: option.splits)
  then show "\<exists>es. voteHistoryHandler tz now s zid p = Inr es
             \<and> length es = nat (hoursOf p * 6)
             \<and> list_all (\<lambda>e. e_hotVotes e = 0 \<and> e_coldVotes e = 0) es"
    using voteHistory_zero [of tz now p s zid] a by simp
qed

theorem voteHistory_unknown_zone_witness:
  "zoneKeepsRange newYork2023 \<and> validClock 1700000300000 \<and> votesReferenceZones demoStorage
     \<and> getZone demoStorage ''lobby'' = None
     \<and> hoursOf (Some 2) * 6 \<le> 4294967295
     \<and> (\<exists>es. voteHistoryHandler newYork2023 1700000300000 demoStorage ''lobby'' (Some 2) = Inr es
            \<and> length es = 12
            \<and> list_all (\<lambda>e. e_hotVotes e = 0 \<and> e_coldVotes e = 0) es)
     \<and> 4294967295 < hoursOf (Some 715827883) * 6
     \<and> voteHistoryHandler newYork2023 1700000300000 demoStorage ''lobby'' (Some 715827883)
         = Inl InternalError"
proof -
  have z: "getZone demoStorage ''lobby'' = None"
    by (simp add: getZone_def demo_zones)
  have h: "hoursOf (Some 2) * 6 \<le> 4294967295" "nat (hoursOf (Some 2) * 6) = 12"
    "4294967295 < hoursOf (Some 715827883) * 6"
    by (simp_all add: hoursOf_def)
  show ?thesis
    using voteHistory_unknown_zone [of newYork2023 1700000300000 demoStorage "''lobby''" "Some 2"]
      voteHistory_unknown_zone [of newYork2023 1700000300000 demoStorage "''lobby''"
        "Some 715827883"]
      clock_1700000300000 demo_references z newYork2023_keepsRange h(1,3)
    by (simp add: h(2))
qed

text \<open>
  The claim as stated, success for every request, fails: for the unknown zone \<open>lobby\<close> and
  \<open>hours = 4000000000\<close> the handler answers 500.
\<close>

theorem voteHistory_unknown_zone_counterexample:
  "getZone demoStorage ''lobby'' = None
   \<and> voteHistoryHandler (fixedZone 0) 1700000300000 demoStorage ''lobby'' (Some 4000000000)
       = Inl InternalError"
  by (simp add: getZone_def demo_zones voteHistoryHandler_def hoursOf_def getRecentVotesByZone_def
      TimeClip_def maxTime_def intervalEntry_def roundDown10_None toISOString_def
      seriesLoop.simps [of "fixedZone 0" 1700000300000 Map.empty 23999999999 "[]"])

section \<open>POST /api/vote\<close>

text \<open>
  Claim C2. For an accepted vote (the body passes the schema and the zone exists), with
  \<open>hotCount\<close> and \<open>coldCount\<close> the numbers of hot and cold votes of the zone in the store
  after the request whose timestamp is within the last 10 minutes: the appended vote is one
  of them, the zone's stored temperature is \<open>22.0 + 0.1 * (hotCount - coldCount)\<close>, a number
  of tenths, a temperature sample with this value is appended, and the response carries the
  zone with this temperature and the two counts. The formula gives exactly 22.0 for no
  votes and \<open>22.0 + 0.1 * n\<close> for \<open>n\<close> hot votes and no cold one. Numbers are binary64: the
  temperature is the double nearest to the decimal \<open>(220 + hotCount - coldCount) / 10\<close>, the
  one that JavaScript prints with one decimal place; the store holds fewer than 2^32 - 1
  votes, the most an array of them can hold.
\<close>

theorem postVote_temperature:
  assumes parse: "voteRequestSchema_parse body = Inr req"
    and zone: "getZone s (zoneId req) = Some zone"
    and clk: "validClock now"
    and small: "length (votes s) < 4294967295"
  shows "let r = postVoteHandler now uS uC uV uH header body s;
             s' = snd r;
             hotCount = length (filter (\<lambda>vote. v_zoneId vote = zoneId req
                           \<and> v_voteType vote = ''hot'' \<and> now - 600000 \<le> v_timestamp vote)
                           (map snd (votes s')));
             coldCount = length (filter (\<lambda>vote. v_zoneId vote = zoneId req
                           \<and> v_voteType vote = ''cold'' \<and> now - 600000 \<le> v_timestamp vote)
                           (map snd (votes s')));
             t = binary64 (of_int (220 + int hotCount - int coldCount) / 10)
         in map_of (votes s') uV = Some \<lparr>v_id = uV, v_zoneId = zoneId req,
                                          v_voteType = voteType req, v_timestamp = now\<rparr>
          \<and> 0 < hotCount + coldCount
          \<and> getZone s' (zoneId req) = Some (zone\<lparr>z_temperature := t, z_lastUpdated := now\<rparr>)
          \<and> map_of (temperatureHistory s') uH
               = Some \<lparr>h_id = uH, h_zoneId = zoneId req, h_temperature = t, h_timestamp = now\<rparr>
          \<and> fst r = Inr (ZoneJson (zone\<lparr>z_temperature := t, z_lastUpdated := now,
                                         z_hotVotes := hotCount, z_coldVotes := coldCount\<rparr>))
          \<and> \<bar>t - (22 + (of_nat hotCount - of_nat coldCount) / 10)\<bar>
               \<le> \<bar>22 + (of_nat hotCount - of_nat coldCount) / 10\<bar> / 2 ^ 53
          \<and> newTemperatureOf 0 0 = 22
          \<and> (n \<le> 4294967296 \<longrightarrow> newTemperatureOf n 0 = binary64 (22 + of_nat n / 10))"
proof -
  define vote where
    "vote = \<lparr>v_id = uV, v_zoneId = zoneId req, v_voteType = voteType req, v_timestamp = now\<rparr>"
  define s2 where "s2 = snd (createVote now uV req (snd (updateConnection now uC (sessionIdOf header uS) s)))"
  define hotCount where
    "hotCount = length (filter (\<lambda>vote. v_zoneId vote = zoneId req
                  \<and> v_voteType vote = ''hot'' \<and> now - 600000 \<le> v_timestamp vote)
                  (map snd (votes s2)))"
  define coldCount where
    "coldCount = length (filter (\<lambda>vote. v_zoneId vote = zoneId req
                  \<and> v_voteType vote = ''cold'' \<and> now - 600000 \<le> v_timestamp vote)
                  (map snd (votes s2)))"
  define t :: rat where "t = binary64 (of_int (220 + int hotCount - int coldCount) / 10)"
  have v2: "votes s2 = AList.update uV vote (votes s)"
    by (simp add: s2_def createVote_def Let_def vote_def)
  have z2: "zones s2 = zones s"
    by (simp add: s2_def createVote_def Let_def)
  have rc: "getRecentVoteCounts now s2 (zoneId req) 10 = (hotCount, coldCount)"
    by (simp add: recentCounts_window [OF clk] hotCount_def coldCount_def)
  have "length (votes s2) \<le> Suc (length (votes s))"
    unfolding v2 by (rule length_update_le)
  then have len: "length (map snd (votes s2)) \<le> 4294967295"
    using small by simp
  have "hotCount \<le> length (map snd (votes s2))" "coldCount \<le> length (map snd (votes s2))"
    unfolding hotCount_def coldCount_def by (rule length_filter_le)+
  then have "\<bar>int hotCount - int coldCount\<bar> \<le> 4294967296"
    using len by linarith
  then have nt: "newTemperatureOf hotCount coldCount = t"
    unfolding t_def by (rule newTemperatureOf_eq)
  have "(of_int (220 + int hotCount - int coldCount) / 10 :: rat)
          = 22 + (of_nat hotCount - of_nat coldCount) / 10"
    by simp
  then have t': "t = binary64 (22 + (of_nat hotCount - of_nat coldCount) / 10)"
    by (simp only: t_def)
  have err: "\<bar>t - (22 + (of_nat hotCount - of_nat coldCount) / 10)\<bar>
               \<le> \<bar>22 + (of_nat hotCount - of_nat coldCount) / 10\<bar> / 2 ^ 53"
    using binary64_err [of "22 + (of_nat hotCount - of_nat coldCount) / 10"]
    unfolding t' by simp
  define s4 where
    "s4 = s2\<lparr>zones := AList.update (zoneId req) (zone\<lparr>z_temperature := t, z_lastUpdated := now\<rparr>)
                         (zones s),
             temperatureHistory := AList.update uH
                \<lparr>h_id = uH, h_zoneId = zoneId req, h_temperature = t, h_timestamp = now\<rparr>
                (temperatureHistory s2)\<rparr>"
  have z: "map_of (zones s) (zoneId req) = Some zone"
    using zone by (simp add: getZone_def)
  have r: "postVoteHandler now uS uC uV uH header body s
             = (Inr (ZoneJson (zone\<lparr>z_temperature := t, z_lastUpdated := now,
                                     z_hotVotes := hotCount, z_coldVotes := coldCount\<rparr>)), s4)"
    unfolding postVoteHandler_def parse
    using zone
    by (simp add: Let_def s2_def [symmetric] rc nt updateZoneTemperature_def z2 z
        addTemperatureHistory_def getZone_def update_conv' s4_def)
  have v4: "votes s4 = votes s2"
    by (simp add: s4_def)
  have mem: "vote \<in> set (map snd (votes s2))"
  proof -
    have "map_of (votes s2) uV = Some vote"
      by (simp add: v2 update_conv')
    then have "(uV, vote) \<in> set (votes s2)"
      by (rule map_of_SomeD)
    then show ?thesis by force
  qed
  have pos: "0 < hotCount + coldCount"
  proof (cases "voteType req = ''hot''")
    case True
    then have "vote \<in> set (filter (\<lambda>vote. v_zoneId vote = zoneId req
                  \<and> v_voteType vote = ''hot'' \<and> now - 600000 \<le> v_timestamp vote)
                  (map snd (votes s2)))"
      using mem by (simp add: vote_def)
    then have "0 < hotCount"
      unfolding hotCount_def by (rule length_pos_if_in_set)
    then show ?thesis by simp
  next
    case False
    then have "voteType req = ''cold''"
      using parse_voteType [OF parse] by simp
    then have "vote \<in> set (filter (\<lambda>vote. v_zoneId vote = zoneId req
                  \<and> v_voteType vote = ''cold'' \<and> now - 600000 \<le> v_timestamp vote)
                  (map snd (votes s2)))"
      using mem by (simp add: vote_def)
    then have "0 < coldCount"
      unfolding coldCount_def by (rule length_pos_if_in_set)
    then show ?thesis by simp
  qed
  have hc: "length (filter (\<lambda>vote. v_zoneId vote = zoneId req
                  \<and> v_voteType vote = ''hot'' \<and> now - 600000 \<le> v_timestamp vote)
                  (map snd (votes (snd (postVoteHandler now uS uC uV uH header body s)))))
              = hotCount"
    unfolding r snd_conv v4 hotCount_def ..
  have cc: "length (filter (\<lambda>vote. v_zoneId vote = zoneId req
                  \<and> v_voteType vote = ''cold'' \<and> now - 600000 \<le> v_timestamp vote)
                  (map snd (votes (snd (postVoteHandler now uS uC uV uH header body s)))))
              = coldCount"
    unfolding r snd_conv v4 coldCount_def ..
  have c1: "map_of (votes s4) uV = Some \<lparr>v_id = uV, v_zoneId = zoneId req,
                                          v_voteType = voteType req, v_timestamp = now\<rparr>"
    by (simp add: v4 v2 update_conv' vote_def)
  have c3: "getZone s4 (zoneId req) = Some (zone\<lparr>z_temperature := t, z_lastUpdated := now\<rparr>)"
    by (simp add: s4_def getZone_def update_conv')
  have c4: "map_of (temperatureHistory s4) uH
              = Some \<lparr>h_id = uH, h_zoneId = zoneId req, h_temperature = t, h_timestamp = now\<rparr>"
    by (simp add: s4_def update_conv')
  have f0: "newTemperatureOf 0 0 = 22"
    using newTemperatureOf_eq [of 0 0] by (simp add: binary64_22)
  have fn: "newTemperatureOf n 0 = binary64 (22 + of_nat n / 10)" if "n \<le> 4294967296"
  proof -
    have eq: "(of_int (220 + int n - int 0) / 10 :: rat) = 22 + of_nat n / 10"
      by simp
    have "newTemperatureOf n 0 = binary64 (of_int (220 + int n - int 0) / 10)"
      using that by (intro newTemperatureOf_eq) simp
    then show ?thesis
      unfolding eq .
  qed
  show ?thesis
    unfolding Let_def hc cc unfolding r fst_conv snd_conv t_def [symmetric]
    using c1 pos c3 c4 err f0 fn by simp
qed

theorem postVote_temperature_witness:
  "voteRequestSchema_parse demoVote = Inr \<lparr>zoneId = ''zone-a'', voteType = ''hot''\<rparr>
     \<and> map_option z_temperature (getZone (newMemStorage 1699999000000) ''zone-a'')
         = Some (binary64 (218 / 10))
     \<and> validClock 1700000000000
     \<and> length (votes (newMemStorage 1699999000000)) < 4294967295
     \<and> map_option z_temperature (getZone demoStorage ''zone-a'') = Some (binary64 (221 / 10))
     \<and> newTemperatureOf 3 0 = binary64 (223 / 10)"
proof -
  have p: "voteRequestSchema_parse demoVote = Inr \<lparr>zoneId = ''zone-a'', voteType = ''hot''\<rparr>"
    by (simp add: demoVote_def voteRequestSchema_parse_def z_string_def z_enum_def)
  have z: "getZone (newMemStorage 1699999000000) (zoneId \<lparr>zoneId = ''zone-a'', voteType = ''hot''\<rparr>)
             = Some \<lparr>z_id = ''zone-a'', z_name = ''1F Zone A'', z_temperature = binary64 (218 / 10),
                     z_hotVotes = 0, z_coldVotes = 0, z_activeVoters = 0,
                     z_lastUpdated = 1699999000000\<rparr>"
    by (simp add: getZone_def newMemStorage_def initializeDefaultZones_def defaultZones_def)
  have c: "validClock 1700000000000"
    by (simp add: validClock_def maxTime_def)
  have l: "length (votes (newMemStorage 1699999000000)) < 4294967295"
    by (simp add: newMemStorage_def initializeDefaultZones_def)
  show ?thesis
    using postVote_temperature [OF p z c l,
        of "''session-1''" "''conn-1''" "''vote-1''" "''hist-1''" None 3]
      p z c l
    by (simp add: Let_def demoStorage_def [symmetric] demo_votes)
qed

text \<open>
  Claim C3. A vote whose body passes the schema and whose \<open>zoneId\<close> is not the id of a
  stored zone is answered with NotFoundError (404), and the store is left as it was: no
  vote, no temperature, no temperature sample, no connection record changes.
\<close>

theorem postVote_unknown_zone:
  assumes "voteRequestSchema_parse body = Inr req" and "getZone s (zoneId req) = None"
  shows "postVoteHandler now uS uC uV uH header body s = (Inl NotFoundError, s)
           \<and> status NotFoundError = 404"
  using assms by (simp add: postVoteHandler_def)

theorem postVote_unknown_zone_witness:
  "voteRequestSchema_parse (JObj [(''zoneId'', JStr ''lobby''), (''voteType'', JStr ''cold'')])
       = Inr \<lparr>zoneId = ''lobby'', voteType = ''cold''\<rparr>
     \<and> getZone demoStorage ''lobby'' = None
     \<and> postVoteHandler 1700000300000 ''session-2'' ''conn-2'' ''vote-2'' ''hist-2'' (Some ''session-1'')
           (JObj [(''zoneId'', JStr ''lobby''), (''voteType'', JStr ''cold'')]) demoStorage
         = (Inl NotFoundError, demoStorage)"
proof -
  have p: "voteRequestSchema_parse (JObj [(''zoneId'', JStr ''lobby''), (''voteType'', JStr ''cold'')])
             = Inr \<lparr>zoneId = ''lobby'', voteType = ''cold''\<rparr>"
    by (simp add: voteRequestSchema_parse_def z_string_def z_enum_def)
  have z: "getZone demoStorage (zoneId \<lparr>zoneId = ''lobby'', voteType = ''cold''\<rparr>) = None"
    by (simp add: getZone_def demo_zones)
  show ?thesis
    using postVote_unknown_zone [OF p z] p z by simp
qed

text \<open>
  Claim C4. A body that is not an object with a string \<open>zoneId\<close> and a \<open>voteType\<close> of
  \<open>hot\<close> or \<open>cold\<close> (a \<open>voteType\<close> such as \<open>warm\<close>, a missing field) is answered with
  ValidationError (400), and the store is left as it was, the connection records
  included.
\<close>

theorem postVote_invalid:
  assumes "\<not> (\<exists>props zid vt. body = JObj props \<and> map_of props ''zoneId'' = Some (JStr zid)
              \<and> map_of props ''voteType'' = Some (JStr vt) \<and> (vt = ''hot'' \<or> vt = ''cold''))"
  shows "postVoteHandler now uS uC uV uH header body s = (Inl ValidationError, s)
           \<and> status ValidationError = 400"
proof -
  have "\<not> (\<exists>req. voteRequestSchema_parse body = Inr req)"
    using assms unfolding parse_Inr_iff .
  then obtain e where "voteRequestSchema_parse body = Inl e"
    by (cases "voteRequestSchema_parse body") auto
  then show ?thesis
    by (simp add: postVoteHandler_def)
qed

theorem postVote_invalid_witness:
  "postVoteHandler 1700000300000 ''session-2'' ''conn-2'' ''vote-2'' ''hist-2'' None
       (JObj [(''zoneId'', JStr ''zone-a''), (''voteType'', JStr ''warm'')]) demoStorage
     = (Inl ValidationError, demoStorage)
   \<and> postVoteHandler 1700000300000 ''session-2'' ''conn-2'' ''vote-2'' ''hist-2'' None
       (JObj [(''voteType'', JStr ''hot'')]) demoStorage
     = (Inl ValidationError, demoStorage)"
  using postVote_invalid [of "JObj [(''zoneId'', JStr ''zone-a''), (''voteType'', JStr ''warm'')]"
      1700000300000 "''session-2''" "''conn-2''" "''vote-2''" "''hist-2''" None demoStorage]
    postVote_invalid [of "JObj [(''voteType'', JStr ''hot'')]"
      1700000300000 "''session-2''" "''conn-2''" "''vote-2''" "''hist-2''" None demoStorage]
  by simp

section \<open>GET /api/zones\<close>

text \<open>
  Claim C5, as amended. The handler answers with the stored zones, each with \<open>hotVotes\<close> and
  \<open>coldVotes\<close> replaced in the response by the counts of the last 10 minutes; the stored
  zones, the votes and the temperature history are left as they were (the handler writes
  the connection records only).
\<close>

theorem getZones_views:
  "fst (getZonesHandler now uS uC header s)
     = Inr (map (\<lambda>zone. zone\<lparr>z_hotVotes := fst (getRecentVoteCounts now s (z_id zone) 10),
                             z_coldVotes := snd (getRecentVoteCounts now s (z_id zone) 10)\<rparr>)
              (getAllZones s))
   \<and> zones (snd (getZonesHandler now uS uC header s)) = zones s
   \<and> votes (snd (getZonesHandler now uS uC header s)) = votes s
   \<and> temperatureHistory (snd (getZonesHandler now uS uC header s)) = temperatureHistory s"
  by (simp add: getZonesHandler_def Let_def getAllZones_def
      getRecentVoteCounts_votes [of "snd (updateConnection now uC (sessionIdOf header uS) s)" s])

text \<open>
  The claim as stated, that the stored fields are overwritten, fails: after a read of the
  demo store the stored \<open>hotVotes\<close> of \<open>zone-a\<close> is still 0 while the count of the last
  10 minutes is 1.
\<close>

theorem getZones_counterexample:
  "map_option z_hotVotes
      (getZone (snd (getZonesHandler 1700000300000 ''session-2'' ''conn-2'' None demoStorage)) ''zone-a'')
     = Some 0
   \<and> getRecentVoteCounts 1700000300000
        (snd (getZonesHandler 1700000300000 ''session-2'' ''conn-2'' None demoStorage)) ''zone-a'' 10
     = (1, 0)"
  by (simp add: getZonesHandler_def Let_def getZone_def demo_zones demo_votes
      getRecentVoteCounts_def getRecentVotesByZone_def TimeClip_def maxTime_def)

section \<open>The connection store\<close>

text \<open>
  Claim C6. After every sequence of \<open>updateConnection\<close> and \<open>cleanupOldConnections\<close> calls
  on a new store, no two records have the same session id; and \<open>updateConnection\<close> with the
  session id of a stored record returns that record with \<open>lastSeen = now\<close>, keeps the ids
  of the records and their order, and changes nothing but the \<open>lastSeen\<close> of that record.
\<close>

theorem connections_one_per_session:
  "let s = fold applyConnectionOp ops (newMemStorage t0)
   in distinct (map c_sessionId (getActiveConnections s))
      \<and> (\<forall>existing \<in> set (getActiveConnections s).
            fst (updateConnection now uuid (c_sessionId existing) s) = existing\<lparr>c_lastSeen := now\<rparr>
            \<and> map c_id (getActiveConnections (snd (updateConnection now uuid (c_sessionId existing) s)))
                = map c_id (getActiveConnections s)
            \<and> getActiveConnections (snd (updateConnection now uuid (c_sessionId existing) s))
                = map (\<lambda>conn. if c_sessionId conn = c_sessionId existing
                               then conn\<lparr>c_lastSeen := now\<rparr> else conn)
                    (getActiveConnections s))"
proof -
  define s where "s = fold applyConnectionOp ops (newMemStorage t0)"
  have wf: "connectionsWellFormed (activeConnections s)"
    unfolding s_def by (rule fold_wf) (rule new_wf)
  have d: "distinct (map c_sessionId (getActiveConnections s))"
    using wf by (simp add: connectionsWellFormed_def getActiveConnections_def)
  have r: "fst (updateConnection now uuid (c_sessionId existing) s) = existing\<lparr>c_lastSeen := now\<rparr>
           \<and> map c_id (getActiveConnections (snd (updateConnection now uuid (c_sessionId existing) s)))
                = map c_id (getActiveConnections s)
           \<and> getActiveConnections (snd (updateConnection now uuid (c_sessionId existing) s))
                = map (\<lambda>conn. if c_sessionId conn = c_sessionId existing
                               then conn\<lparr>c_lastSeen := now\<rparr> else conn)
                    (getActiveConnections s)"
    if "existing \<in> set (getActiveConnections s)" for existing
  proof -
    have mem: "existing \<in> set (map snd (activeConnections s))"
      using that by (simp add: getActiveConnections_def)
    have f: "find (\<lambda>conn. c_sessionId conn = c_sessionId existing) (map snd (activeConnections s))
               = Some existing"
      using wf_find(1) [OF wf mem] .
    have u: "updateConnection now uuid (c_sessionId existing) s
               = (existing\<lparr>c_lastSeen := now\<rparr>,
                  s\<lparr>activeConnections :=
                      AList.update (c_id existing) (existing\<lparr>c_lastSeen := now\<rparr>)
                        (activeConnections s)\<rparr>)"
      by (simp add: updateConnection_def f Let_def)
    have g: "getActiveConnections (snd (updateConnection now uuid (c_sessionId existing) s))
               = map (\<lambda>conn. if c_sessionId conn = c_sessionId existing
                              then conn\<lparr>c_lastSeen := now\<rparr> else conn)
                   (getActiveConnections s)"
      unfolding u getActiveConnections_def using wf_refresh [OF wf mem, of now] by simp
    have "map c_id (getActiveConnections (snd (updateConnection now uuid (c_sessionId existing) s)))
            = map c_id (getActiveConnections s)"
      unfolding g by (simp add: comp_def cong: if_cong)
    then show ?thesis
      using g by (simp add: u)
  qed
  show ?thesis
    unfolding Let_def s_def [symmetric] using d r by blast
qed

theorem connections_one_per_session_witness:
  "getActiveConnections
      (fold applyConnectionOp [Touch 1000 ''conn-1'' ''alice'', Touch 2000 ''conn-2'' ''bob'']
         (newMemStorage 0))
     = [\<lparr>c_id = ''conn-1'', c_sessionId = ''alice'', c_lastSeen = 1000\<rparr>,
        \<lparr>c_id = ''conn-2'', c_sessionId = ''bob'', c_lastSeen = 2000\<rparr>]
   \<and> getActiveConnections
        (snd (updateConnection 3000 ''conn-3'' ''alice''
           (fold applyConnectionOp [Touch 1000 ''conn-1'' ''alice'', Touch 2000 ''conn-2'' ''bob'']
              (newMemStorage 0))))
     = [\<lparr>c_id = ''conn-1'', c_sessionId = ''alice'', c_lastSeen = 3000\<rparr>,
        \<lparr>c_id = ''conn-2'', c_sessionId = ''bob'', c_lastSeen = 2000\<rparr>]"
proof -
  let ?s = "fold applyConnectionOp [Touch 1000 ''conn-1'' ''alice'', Touch 2000 ''conn-2'' ''bob'']
              (newMemStorage 0)"
  have g: "getActiveConnections ?s
             = [\<lparr>c_id = ''conn-1'', c_sessionId = ''alice'', c_lastSeen = 1000\<rparr>,
                \<lparr>c_id = ''conn-2'', c_sessionId = ''bob'', c_lastSeen = 2000\<rparr>]"
    by (simp add: getActiveConnections_def updateConnection_def newMemStorage_def Let_def)
  have "\<forall>existing \<in> set (getActiveConnections ?s).
          getActiveConnections (snd (updateConnection 3000 ''conn-3'' (c_sessionId existing) ?s))
            = map (\<lambda>conn. if c_sessionId conn = c_sessionId existing
                           then conn\<lparr>c_lastSeen := 3000\<rparr> else conn)
                (getActiveConnections ?s)"
    using connections_one_per_session
      [of "[Touch 1000 ''conn-1'' ''alice'', Touch 2000 ''conn-2'' ''bob'']" 0 3000 "''conn-3''"]
    unfolding Let_def by blast
  then have "getActiveConnections (snd (updateConnection 3000 ''conn-3''
                (c_sessionId \<lparr>c_id = ''conn-1'', c_sessionId = ''alice'', c_lastSeen = 1000\<rparr>) ?s))
            = map (\<lambda>conn. if c_sessionId conn
                               = c_sessionId \<lparr>c_id = ''conn-1'', c_sessionId = ''alice'', c_lastSeen = 1000\<rparr>
                           then conn\<lparr>c_lastSeen := 3000\<rparr> else conn)
                (getActiveConnections ?s)"
    unfolding g by simp
  then show ?thesis
    unfolding g by simp
qed

text \<open>
  Claim C7. \<open>cleanupOldConnections(minutes)\<close>, for a threshold of \<open>minutes \<ge> 0\<close>, removes
  exactly the records whose \<open>lastSeen\<close> is before \<open>now - minutes\<close> and keeps all others, in
  their order; zones, votes and temperature history are left as they were. A record
  touched at T is removed by a sweep of 5 minutes at T + 6 min and kept at T + 4 min.
\<close>

theorem cleanup_exact:
  assumes clk: "validClock now" and nonneg: "0 \<le> minutes"
    and st: "connectionsStamped s"
    and d: "distinct (map fst (activeConnections s))"
  shows "getActiveConnections (cleanupOldConnections now minutes s)
           = filter (\<lambda>conn. \<not> c_lastSeen conn < now - minutes * 60000) (getActiveConnections s)
         \<and> zones (cleanupOldConnections now minutes s) = zones s
         \<and> votes (cleanupOldConnections now minutes s) = votes s
         \<and> temperatureHistory (cleanupOldConnections now minutes s) = temperatureHistory s"
proof -
  let ?cs = "activeConnections s"
  define stale :: "ActiveConnection \<Rightarrow> bool" where
    "stale = (\<lambda>conn. (case TimeClip (now - minutes * 60 * 1000) of None \<Rightarrow> False
                       | Some c \<Rightarrow> c_lastSeen conn < c))"
  have stale: "stale conn \<longleftrightarrow> c_lastSeen conn < now - minutes * 60000"
    if "conn \<in> set (map snd ?cs)" for conn
  proof (cases "TimeClip (now - minutes * 60 * 1000)")
    case (Some c)
    then have "c = now - minutes * 60000"
      by (simp add: TimeClip_def split: if_splits)
    then show ?thesis using Some by (simp add: stale_def)
  next
    case None
    have "0 \<le> minutes * 60000"
      using nonneg by simp
    then have "now - minutes * 60000 \<le> maxTime"
      using clk by (simp add: validClock_def)
    then have "now - minutes * 60000 < - maxTime"
      using None by (simp add: TimeClip_def abs_le_iff split: if_splits)
    moreover have "0 \<le> c_lastSeen conn"
      using st that by (auto simp: connectionsStamped_def list_all_iff validClock_def)
    ultimately have "\<not> c_lastSeen conn < now - minutes * 60000"
      by (simp add: maxTime_def)
    then show ?thesis using None by (simp add: stale_def)
  qed
  have key: "fst p \<in> set (map fst (filter (\<lambda>(i, connection). stale connection) ?cs))
               \<longleftrightarrow> stale (snd p)"
    if "p \<in> set ?cs" for p
  proof
    assume "fst p \<in> set (map fst (filter (\<lambda>(i, connection). stale connection) ?cs))"
    then obtain q where q: "q \<in> set ?cs" "stale (snd q)" "fst q = fst p"
      by (auto simp: case_prod_beta)
    then have "snd q = snd p"
      using d that by (metis eq_key_imp_eq_value prod.collapse)
    then show "stale (snd p)" using q by simp
  next
    assume "stale (snd p)"
    then show "fst p \<in> set (map fst (filter (\<lambda>(i, connection). stale connection) ?cs))"
      using that by (auto simp: case_prod_beta intro!: image_eqI [of _ _ p])
  qed
  have "activeConnections (cleanupOldConnections now minutes s)
          = filter (\<lambda>p. fst p \<notin> set (map fst (filter (\<lambda>(i, connection). stale connection) ?cs))) ?cs"
    unfolding cleanup_filter stale_def ..
  also have "\<dots> = filter (\<lambda>p. \<not> stale (snd p)) ?cs"
  proof (rule filter_cong [OF refl])
    fix p
    assume "p \<in> set ?cs"
    then show "(fst p \<notin> set (map fst (filter (\<lambda>(i, connection). stale connection) ?cs)))
                 = (\<not> stale (snd p))"
      by (simp only: key)
  qed
  also have "\<dots> = filter (\<lambda>p. \<not> c_lastSeen (snd p) < now - minutes * 60000) ?cs"
    by (rule filter_cong) (simp_all add: stale)
  finally have "getActiveConnections (cleanupOldConnections now minutes s)
                  = filter (\<lambda>conn. \<not> c_lastSeen conn < now - minutes * 60000) (getActiveConnections s)"
    by (simp add: getActiveConnections_def filter_map comp_def)
  then show ?thesis
    by (simp add: cleanupOldConnections_def Let_def)
qed

theorem cleanup_exact_witness:
  "validClock 1700000360000 \<and> validClock 1700000240000 \<and> (0::int) \<le> 5
     \<and> connectionsStamped demoStorage \<and> distinct (map fst (activeConnections demoStorage))
     \<and> getActiveConnections demoStorage
          = [\<lparr>c_id = ''conn-1'', c_sessionId = ''session-1'', c_lastSeen = 1700000000000\<rparr>]
     \<and> getActiveConnections (cleanupOldConnections 1700000360000 5 demoStorage) = []
     \<and> getActiveConnections (cleanupOldConnections 1700000240000 5 demoStorage)
          = [\<lparr>c_id = ''conn-1'', c_sessionId = ''session-1'', c_lastSeen = 1700000000000\<rparr>]"
proof -
  have c6: "validClock 1700000360000" and c4: "validClock 1700000240000"
    by (simp_all add: validClock_def maxTime_def)
  have d: "distinct (map fst (activeConnections demoStorage))"
    by (simp add: demo_connections)
  have g: "getActiveConnections demoStorage
             = [\<lparr>c_id = ''conn-1'', c_sessionId = ''session-1'', c_lastSeen = 1700000000000\<rparr>]"
    by (simp add: getActiveConnections_def demo_connections)
  show ?thesis
    using cleanup_exact [OF c6 _ demo_connections_stamped d, of 5]
      cleanup_exact [OF c4 _ demo_connections_stamped d, of 5]
      c6 c4 demo_connections_stamped d
    by (simp add: g)
qed

end
